theory Spec2Isabelle
  imports Main "HOL-Library.Word" "HOL-Library.List_Lexorder"
begin

section \<open>JavaScript strings\<close>

text \<open>
  A JavaScript string is a sequence of 16-bit code units. String literals of the
  source that are plain ASCII are written with \<open>js\<close>; a letter outside ASCII is
  given by its code unit.
\<close>

type_synonym unit16 = "16 word"
type_synonym jsstring = "unit16 list"

definition js :: "string \<Rightarrow> jsstring" where
  "js s = map (\<lambda>c. of_nat (of_char c)) s"

text \<open>
  The code units that ECMAScript counts as WhiteSpace or LineTerminator. Both
  \<open>String.prototype.trim\<close> and the regular-expression class \<open>\s\<close> use this set.
\<close>

definition is_space :: "unit16 \<Rightarrow> bool" where
  "is_space c =
     (c \<in> set [0x09, 0x0A, 0x0B, 0x0C, 0x0D, 0x20, 0xA0, 0x1680,
                0x2028, 0x2029, 0x202F, 0x205F, 0x3000, 0xFEFF]
      \<or> (0x2000 \<le> c \<and> c \<le> 0x200A))"

text \<open>The regular-expression class \<open>\d\<close> (without the unicode flag): \<open>0\<close> to \<open>9\<close>.\<close>

definition is_digit :: "unit16 \<Rightarrow> bool" where
  "is_digit c = (0x30 \<le> c \<and> c \<le> 0x39)"

text \<open>\<open>s.trim()\<close>: strip white space at both ends.\<close>

definition trim :: "jsstring \<Rightarrow> jsstring" where
  "trim s = rev (dropWhile is_space (rev (dropWhile is_space s)))"

text \<open>
  \<open>s.toLowerCase()\<close>, as ECMAScript defines it: the string is read as code points
  (a lead surrogate followed by a trail surrogate is one code point), every code point
  is replaced by its lowercase mapping of the Unicode Default Case Conversion, and the
  result is written back as code units. The mapping of a code point is a sequence of
  code points and may depend on the code points before and after it (the final sigma
  of SpecialCasing). The Unicode tables are not part of the repository: the mapping is a
  parameter \<open>ucd\<close>, given the code points before, the code point and the code points
  after, and every result about lower-casing holds for every such mapping.
\<close>

type_synonym lowercase_mapping = "int list \<Rightarrow> int \<Rightarrow> int list \<Rightarrow> int list"

definition is_lead :: "unit16 \<Rightarrow> bool" where
  "is_lead c = (0xD800 \<le> c \<and> c \<le> 0xDBFF)"

definition is_trail :: "unit16 \<Rightarrow> bool" where
  "is_trail c = (0xDC00 \<le> c \<and> c \<le> 0xDFFF)"

fun StringToCodePoints :: "jsstring \<Rightarrow> int list" where
  "StringToCodePoints [] = []"
| "StringToCodePoints [c] = [uint c]"
| "StringToCodePoints (c # t # s) =
     (if is_lead c \<and> is_trail t
      then (0x10000 + (uint c - 0xD800) * 0x400 + (uint t - 0xDC00)) # StringToCodePoints s
      else uint c # StringToCodePoints (t # s))"

definition UTF16EncodeCodePoint :: "int \<Rightarrow> jsstring" where
  "UTF16EncodeCodePoint cp =
     (if cp \<le> 0xFFFF then [of_int cp]
      else [of_int (0xD800 + (cp - 0x10000) div 0x400),
            of_int (0xDC00 + (cp - 0x10000) mod 0x400)])"

definition CodePointsToString :: "int list \<Rightarrow> jsstring" where
  "CodePointsToString cps = concat (map UTF16EncodeCodePoint cps)"

fun lower_points :: "lowercase_mapping \<Rightarrow> int list \<Rightarrow> int list \<Rightarrow> int list" where
  "lower_points ucd before [] = []"
| "lower_points ucd before (cp # after) =
     ucd before cp after @ lower_points ucd (before @ [cp]) after"

definition toLowerCase :: "lowercase_mapping \<Rightarrow> jsstring \<Rightarrow> jsstring" where
  "toLowerCase ucd s = CodePointsToString (lower_points ucd [] (StringToCodePoints s))"

text \<open>
  The lowercase mapping on Basic Latin (U+0000 to U+007F): \<open>A\<close> to \<open>Z\<close> go to \<open>a\<close> to
  \<open>z\<close>, in every context, and nothing else changes. \<open>basic_latin\<close> continues it with
  the identity; it serves the concrete inputs, which are Basic Latin throughout
  (\<open>basic_latin_string\<close>), and \<open>agrees_on_basic_latin\<close> says of a mapping that it is
  the Unicode one there.
\<close>

definition basic_latin :: lowercase_mapping where
  "basic_latin before cp after = [if 0x41 \<le> cp \<and> cp \<le> 0x5A then cp + 0x20 else cp]"

definition basic_latin_string :: "jsstring \<Rightarrow> bool" where
  "basic_latin_string s = list_all (\<lambda>c. c < 0x80) s"

definition agrees_on_basic_latin :: "lowercase_mapping \<Rightarrow> bool" where
  "agrees_on_basic_latin ucd \<longleftrightarrow>
     (\<forall>before cp after. cp < 0x80 \<longrightarrow> ucd before cp after = basic_latin before cp after)"

text \<open>\<open>s.includes(t)\<close>: \<open>t\<close> occurs in \<open>s\<close> at some position.\<close>

fun starts_with :: "jsstring \<Rightarrow> jsstring \<Rightarrow> bool" where
  "starts_with s [] = True"
| "starts_with [] (y # t) = False"
| "starts_with (x # s) (y # t) = (x = y \<and> starts_with s t)"

fun str_includes :: "jsstring \<Rightarrow> jsstring \<Rightarrow> bool" where
  "str_includes [] t = (t = [])"
| "str_includes (x # s) t = (starts_with (x # s) t \<or> str_includes s t)"

text \<open>
  What \<open>includes\<close> is meant to decide, as a statement: \<open>t\<close> is a substring of \<open>s\<close>.
\<close>

definition is_substring :: "jsstring \<Rightarrow> jsstring \<Rightarrow> bool" where
  "is_substring t s \<longleftrightarrow> (\<exists>before after. s = before @ t @ after)"


text \<open>\<open>a || null\<close> on a string: the empty string is falsy.\<close>

definition or_null :: "jsstring \<Rightarrow> jsstring option" where
  "or_null s = (if s = [] then None else Some s)"


text \<open>
  Plain objects used as string-keyed records (\<open>Record<string, string>\<close>): the
  properties in insertion order. \<open>assign k v obj\<close> is \<open>obj[k] = v\<close>.
\<close>

type_synonym errors = "(jsstring \<times> jsstring) list"

fun assign :: "jsstring \<Rightarrow> jsstring \<Rightarrow> errors \<Rightarrow> errors" where
  "assign k v [] = [(k, v)]"
| "assign k v ((k', v') # obj) =
     (if k = k' then (k, v) # obj else (k', v') # assign k v obj)"

definition keys :: "errors \<Rightarrow> jsstring list" where
  "keys obj = map fst obj"

section \<open>Dates\<close>

text \<open>
  A \<open>Date\<close> holds a time value: milliseconds since 1 January 1970 UTC. The
  functions below are the ones ECMAScript defines on time values, with its names.
  \<open>YearFromTime t\<close> is there the largest \<open>y\<close> with \<open>TimeFromYear y \<le> t\<close>; here it is
  found by counting up from a year that is not too late (\<open>YearFromTime_spec\<close> below
  shows that the result is that year).
\<close>

definition msPerDay :: int where
  "msPerDay = 86400000"

definition Day :: "int \<Rightarrow> int" where
  "Day t = t div msPerDay"

definition TimeWithinDay :: "int \<Rightarrow> int" where
  "TimeWithinDay t = t mod msPerDay"

definition DaysInYear :: "int \<Rightarrow> int" where
  "DaysInYear y =
     (if y mod 4 \<noteq> 0 then 365
      else if y mod 100 \<noteq> 0 then 366
      else if y mod 400 \<noteq> 0 then 365
      else 366)"

definition DayFromYear :: "int \<Rightarrow> int" where
  "DayFromYear y =
     365 * (y - 1970) + (y - 1969) div 4 - (y - 1901) div 100 + (y - 1601) div 400"

function year_from :: "int \<Rightarrow> int \<Rightarrow> int" where
  "year_from y d = (if DayFromYear (y + 1) \<le> d then year_from (y + 1) d else y)"
  by pat_completeness auto
termination
proof (relation "measure (\<lambda>(y, d). nat (d - DayFromYear (y + 1) + 1))")
  show "wf (measure (\<lambda>(y, d). nat (d - DayFromYear (y + 1) + 1)))" by simp
next
  fix y d :: int
  assume le: "DayFromYear (y + 1) \<le> d"
  have 1: "(y + 1 - 1969) div 4 \<le> (y + 1 + 1 - 1969) div 4" by simp
  have 2: "(y + 1 + 1 - 1901) div 100 \<le> (y + 1 - 1901) div 100 + 1" by simp
  have 3: "(y + 1 - 1601) div 400 \<le> (y + 1 + 1 - 1601) div 400" by simp
  have "a \<le> a' \<Longrightarrow> b' \<le> b + 1 \<Longrightarrow> c \<le> c' \<Longrightarrow>
      365 * (y + 1 - 1970) + a - b + c < 365 * (y + 1 + 1 - 1970) + a' - b' + c'"
    for a a' b b' c c' :: int
    by arith
  from this[OF 1 2 3] have "DayFromYear (y + 1) < DayFromYear (y + 1 + 1)"
    unfolding DayFromYear_def .
  with le show "((y + 1, d), (y, d)) \<in> measure (\<lambda>(y, d). nat (d - DayFromYear (y + 1) + 1))"
    by simp
qed

declare year_from.simps [simp del]

definition year_lower_bound :: "int \<Rightarrow> int" where
  "year_lower_bound d = 1970 + (if 0 \<le> d then d div 366 else d div 365)"

definition YearFromTime :: "int \<Rightarrow> int" where
  "YearFromTime t = year_from (year_lower_bound (Day t)) (Day t)"

definition InLeapYear :: "int \<Rightarrow> int" where
  "InLeapYear t = (if DaysInYear (YearFromTime t) = 365 then 0 else 1)"

definition DayWithinYear :: "int \<Rightarrow> int" where
  "DayWithinYear t = Day t - DayFromYear (YearFromTime t)"

definition MonthFromTime :: "int \<Rightarrow> int" where
  "MonthFromTime t =
     (let d = DayWithinYear t; leap = InLeapYear t
      in if d < 31 then 0
         else if d < 59 + leap then 1
         else if d < 90 + leap then 2
         else if d < 120 + leap then 3
         else if d < 151 + leap then 4
         else if d < 181 + leap then 5
         else if d < 212 + leap then 6
         else if d < 243 + leap then 7
         else if d < 273 + leap then 8
         else if d < 304 + leap then 9
         else if d < 334 + leap then 10
         else 11)"

definition DateFromTime :: "int \<Rightarrow> int" where
  "DateFromTime t =
     (let d = DayWithinYear t; leap = InLeapYear t; m = MonthFromTime t
      in if m = 0 then d + 1
         else if m = 1 then d - 30
         else if m = 2 then d - 58 - leap
         else if m = 3 then d - 89 - leap
         else if m = 4 then d - 119 - leap
         else if m = 5 then d - 150 - leap
         else if m = 6 then d - 180 - leap
         else if m = 7 then d - 211 - leap
         else if m = 8 then d - 242 - leap
         else if m = 9 then d - 272 - leap
         else if m = 10 then d - 303 - leap
         else d - 333 - leap)"

definition HourFromTime :: "int \<Rightarrow> int" where
  "HourFromTime t = (t div 3600000) mod 24"

definition MinFromTime :: "int \<Rightarrow> int" where
  "MinFromTime t = (t div 60000) mod 60"

definition SecFromTime :: "int \<Rightarrow> int" where
  "SecFromTime t = (t div 1000) mod 60"

definition msFromTime :: "int \<Rightarrow> int" where
  "msFromTime t = t mod 1000"

text \<open>
  \<open>toISOString\<close>: \<open>YYYY-MM-DDTHH:mm:ss.sssZ\<close> of the time value in UTC, the year with
  four digits from 0 to 9999 and with a sign and six digits otherwise. \<open>digits w n\<close>
  are the last \<open>w\<close> decimal digits of \<open>n\<close>; \<open>date_string\<close> is the part before \<open>T\<close>.
\<close>

fun digits :: "nat \<Rightarrow> nat \<Rightarrow> jsstring" where
  "digits 0 n = []"
| "digits (Suc w) n = digits w (n div 10) @ [of_nat (48 + n mod 10)]"

definition year_string :: "int \<Rightarrow> jsstring" where
  "year_string y =
     (if 0 \<le> y \<and> y \<le> 9999 then digits 4 (nat y)
      else (if y < 0 then 0x2D else 0x2B) # digits 6 (nat \<bar>y\<bar>))"

definition date_string :: "int \<Rightarrow> jsstring" where
  "date_string t =
     year_string (YearFromTime t) @ [0x2D] @ digits 2 (nat (MonthFromTime t + 1))
       @ [0x2D] @ digits 2 (nat (DateFromTime t))"

definition toISOString :: "int \<Rightarrow> jsstring" where
  "toISOString t =
     date_string t @ [0x54] @ digits 2 (nat (HourFromTime t)) @ [0x3A]
       @ digits 2 (nat (MinFromTime t)) @ [0x3A] @ digits 2 (nat (SecFromTime t))
       @ [0x2E] @ digits 3 (nat (msFromTime t)) @ [0x5A]"


section \<open>Regular expressions\<close>

text \<open>
  The two patterns of the student form are anchored at both ends and are built from
  character classes, concatenation, \<open>+\<close> and \<open>{n}\<close>. \<open>rx_test r s\<close> is
  \<open>/^r$/.test(s)\<close>, computed with derivatives.
\<close>

datatype rx =
    Never
  | Empty
  | Class "unit16 \<Rightarrow> bool"
  | Seq rx rx
  | Alt rx rx
  | Star rx

fun nullable :: "rx \<Rightarrow> bool" where
  "nullable Never = False"
| "nullable Empty = True"
| "nullable (Class p) = False"
| "nullable (Seq r s) = (nullable r \<and> nullable s)"
| "nullable (Alt r s) = (nullable r \<or> nullable s)"
| "nullable (Star r) = True"

fun deriv :: "unit16 \<Rightarrow> rx \<Rightarrow> rx" where
  "deriv c Never = Never"
| "deriv c Empty = Never"
| "deriv c (Class p) = (if p c then Empty else Never)"
| "deriv c (Seq r s) =
     (if nullable r then Alt (Seq (deriv c r) s) (deriv c s) else Seq (deriv c r) s)"
| "deriv c (Alt r s) = Alt (deriv c r) (deriv c s)"
| "deriv c (Star r) = Seq (deriv c r) (Star r)"

fun rx_test :: "rx \<Rightarrow> jsstring \<Rightarrow> bool" where
  "rx_test r [] = nullable r"
| "rx_test r (c # s) = rx_test (deriv c r) s"

definition plus :: "rx \<Rightarrow> rx" where
  "plus r = Seq r (Star r)"

fun times :: "nat \<Rightarrow> rx \<Rightarrow> rx" where
  "times 0 r = Empty"
| "times (Suc n) r = Seq r (times n r)"

text \<open>What a pattern denotes: the strings it matches as a whole.\<close>

inductive_set star :: "jsstring set \<Rightarrow> jsstring set" for L :: "jsstring set" where
  star_nil: "[] \<in> star L"
| star_app: "u \<in> L \<Longrightarrow> v \<in> star L \<Longrightarrow> u @ v \<in> star L"

fun lang :: "rx \<Rightarrow> jsstring set" where
  "lang Never = {}"
| "lang Empty = {[]}"
| "lang (Class p) = {[c] | c. p c}"
| "lang (Seq r s) = {u @ v | u v. u \<in> lang r \<and> v \<in> lang s}"
| "lang (Alt r s) = lang r \<union> lang s"
| "lang (Star r) = star (lang r)"

section \<open>Rows of the two tables (lib/supabase)\<close>

text \<open>
  The columns a form submits, with the type of the optional columns left open: a form
  holds them as strings, a row and a payload as string-or-null.
\<close>

record 'o StudentData =
  codigo :: jsstring
  nombres :: jsstring
  apellidos :: jsstring
  dni :: jsstring
  carrera :: jsstring
  semestre :: int
  email :: 'o
  telefono :: 'o
  activo :: bool

record Student = "jsstring option StudentData" +
  s_id :: jsstring
  s_created_at :: jsstring
  updated_at :: jsstring

datatype estado = presente | ausente | tardanza | justificado

record 'o AttendanceData =
  student_id :: jsstring
  fecha :: jsstring
  estado :: estado
  hora_entrada :: 'o
  curso :: jsstring
  observaciones :: 'o

record Attendance = "jsstring option AttendanceData" +
  a_id :: jsstring
  created_at :: jsstring

record AttendanceWithStudent = Attendance +
  students :: "Student option"

text \<open>The error object of a failed store call.\<close>

record store_error =
  code :: jsstring
  message :: jsstring

text \<open>The mutations the components send to the store.\<close>

datatype call =
    InsertStudent "jsstring option StudentData"
  | UpdateStudent jsstring "jsstring option StudentData"
  | DeleteStudent jsstring
  | InsertAttendance "jsstring option AttendanceData"
  | UpdateAttendance jsstring "jsstring option AttendanceData"
  | DeleteAttendance jsstring

section \<open>StudentForm\<close>

definition dni_re :: rx where
  "dni_re = times 8 (Class is_digit)"

definition not_space_at :: "unit16 \<Rightarrow> bool" where
  "not_space_at c = (\<not> is_space c \<and> c \<noteq> 0x40)"

definition email_re :: rx where
  "email_re =
     Seq (plus (Class not_space_at))
       (Seq (Class (\<lambda>c. c = 0x40))
         (Seq (plus (Class not_space_at))
           (Seq (Class (\<lambda>c. c = 0x2E))
             (plus (Class not_space_at)))))"

definition msg_codigo_requerido :: jsstring where
  "msg_codigo_requerido = js ''El c'' @ [0xF3] @ js ''digo es requerido''"

definition msg_nombres_requeridos :: jsstring where
  "msg_nombres_requeridos = js ''Los nombres son requeridos''"

definition msg_apellidos_requeridos :: jsstring where
  "msg_apellidos_requeridos = js ''Los apellidos son requeridos''"

definition msg_dni_requerido :: jsstring where
  "msg_dni_requerido = js ''El DNI es requerido''"

definition msg_dni_digitos :: jsstring where
  "msg_dni_digitos = js ''El DNI debe tener 8 d'' @ [0xED] @ js ''gitos''"

definition msg_carrera_requerida :: jsstring where
  "msg_carrera_requerida = js ''La carrera es requerida''"

definition msg_semestre_rango :: jsstring where
  "msg_semestre_rango = js ''El semestre debe estar entre 1 y 6''"

definition msg_email_invalido :: jsstring where
  "msg_email_invalido = js ''Email inv'' @ [0xE1] @ js ''lido''"

definition msg_codigo_registrado :: jsstring where
  "msg_codigo_registrado =
     js ''Este c'' @ [0xF3] @ js ''digo ya est'' @ [0xE1] @ js '' registrado''"

definition msg_dni_registrado :: jsstring where
  "msg_dni_registrado = js ''Este DNI ya est'' @ [0xE1] @ js '' registrado''"

definition msg_email_registrado :: jsstring where
  "msg_email_registrado = js ''Este email ya est'' @ [0xE1] @ js '' registrado''"

definition msg_error_guardar_estudiante :: jsstring where
  "msg_error_guardar_estudiante = js ''Error al guardar el estudiante''"

text \<open>
  \<open>validate\<close>: the object \<open>newErrors\<close> it builds and hands to \<open>setErrors\<close>, and its
  return value \<open>Object.keys(newErrors).length === 0\<close>. The term number is an integer:
  the form offers the options 1 to 6 and starts from 1 or from the edited row.
\<close>

definition validate :: "jsstring StudentData \<Rightarrow> errors \<times> bool" where
  "validate formData =
     (let e0 = [];
          e1 = (if trim (codigo formData) = []
                then assign (js ''codigo'') msg_codigo_requerido e0 else e0);
          e2 = (if trim (nombres formData) = []
                then assign (js ''nombres'') msg_nombres_requeridos e1 else e1);
          e3 = (if trim (apellidos formData) = []
                then assign (js ''apellidos'') msg_apellidos_requeridos e2 else e2);
          e4 = (if trim (dni formData) = []
                then assign (js ''dni'') msg_dni_requerido e3
                else if \<not> rx_test dni_re (dni formData)
                then assign (js ''dni'') msg_dni_digitos e3 else e3);
          e5 = (if carrera formData = []
                then assign (js ''carrera'') msg_carrera_requerida e4 else e4);
          e6 = (if semestre formData < 1 \<or> semestre formData > 6
                then assign (js ''semestre'') msg_semestre_rango e5 else e5);
          e7 = (if email formData \<noteq> [] \<and> \<not> rx_test email_re (email formData)
                then assign (js ''email'') msg_email_invalido e6 else e6)
      in (e7, length (keys e7) = 0))"

text \<open>
  What one run of a submit handler does: the store calls it issued, the \<open>errors\<close>
  state it leaves, the alerts it showed, and whether it called \<open>onSave\<close>. The
  \<open>loading\<close> flag (set while the call is in flight, reset at the end) and the
  \<open>console.error\<close> of a failure are left out: neither reaches the user or the store.
\<close>

record outcome =
  calls :: "call list"
  errors_after :: errors
  alerts :: "jsstring list"
  saved :: bool

definition dataToSave :: "jsstring StudentData \<Rightarrow> jsstring option StudentData" where
  "dataToSave formData =
     \<lparr> codigo = codigo formData, nombres = nombres formData,
       apellidos = apellidos formData, dni = dni formData,
       carrera = carrera formData, semestre = semestre formData,
       email = or_null (email formData), telefono = or_null (telefono formData),
       activo = activo formData \<rparr>"

text \<open>
  \<open>handleSubmit\<close> of the student form. \<open>student\<close> is the row being edited, if any;
  \<open>store\<close> gives the \<open>error\<close> the store answers a call with (\<open>None\<close>: no error).
\<close>

definition handleSubmit ::
  "Student option \<Rightarrow> jsstring StudentData \<Rightarrow> (call \<Rightarrow> store_error option) \<Rightarrow> outcome" where
  "handleSubmit student formData store =
     (case validate formData of
        (newErrors, ok) \<Rightarrow>
          if \<not> ok then \<lparr> calls = [], errors_after = newErrors, alerts = [], saved = False \<rparr>
          else
            let c = (case student of
                       Some st \<Rightarrow> UpdateStudent (s_id st) (dataToSave formData)
                     | None \<Rightarrow> InsertStudent (dataToSave formData))
            in (case store c of
                  None \<Rightarrow> \<lparr> calls = [c], errors_after = newErrors, alerts = [], saved = True \<rparr>
                | Some error \<Rightarrow>
                    if code error = js ''23505'' then
                      (if str_includes (message error) (js ''codigo'')
                       then \<lparr> calls = [c],
                              errors_after = [(js ''codigo'', msg_codigo_registrado)],
                              alerts = [], saved = False \<rparr>
                       else if str_includes (message error) (js ''dni'')
                       then \<lparr> calls = [c],
                              errors_after = [(js ''dni'', msg_dni_registrado)],
                              alerts = [], saved = False \<rparr>
                       else if str_includes (message error) (js ''email'')
                       then \<lparr> calls = [c],
                              errors_after = [(js ''email'', msg_email_registrado)],
                              alerts = [], saved = False \<rparr>
                       else \<lparr> calls = [c], errors_after = newErrors,
                              alerts = [], saved = False \<rparr>)
                    else \<lparr> calls = [c], errors_after = newErrors,
                           alerts = [msg_error_guardar_estudiante], saved = False \<rparr>))"

text \<open>The mutation the handler sends once validation has passed.\<close>

definition submitted_call :: "Student option \<Rightarrow> jsstring StudentData \<Rightarrow> call" where
  "submitted_call student formData =
     (case student of
        Some st \<Rightarrow> UpdateStudent (s_id st) (dataToSave formData)
      | None \<Rightarrow> InsertStudent (dataToSave formData))"

section \<open>StudentList\<close>

text \<open>
  \<open>filteredStudents\<close>: the rows of \<open>students\<close> shown for \<open>searchTerm\<close>; \<open>ucd\<close> is the
  lowercase mapping that \<open>toLowerCase\<close> applies.
\<close>

definition filteredStudents ::
  "lowercase_mapping \<Rightarrow> Student list \<Rightarrow> jsstring \<Rightarrow> Student list" where
  "filteredStudents ucd students_loaded searchTerm =
     filter (\<lambda>student.
        let search = toLowerCase ucd searchTerm
        in str_includes (toLowerCase ucd (nombres student)) search
           \<or> str_includes (toLowerCase ucd (apellidos student)) search
           \<or> str_includes (toLowerCase ucd (codigo student)) search
           \<or> str_includes (dni student) search) students_loaded"

definition msg_error_eliminar_estudiante :: jsstring where
  "msg_error_eliminar_estudiante = js ''Error al eliminar el estudiante''"

text \<open>
  \<open>handleDelete\<close> of the student list: nothing happens unless the user confirms; the
  list is loaded again when the store reports no error, an alert is shown otherwise.
  The third component says whether \<open>loadStudents\<close> runs.
\<close>

definition handleDelete ::
  "bool \<Rightarrow> jsstring \<Rightarrow> (call \<Rightarrow> store_error option) \<Rightarrow> call list \<times> jsstring list \<times> bool" where
  "handleDelete confirmed ident store =
     (if \<not> confirmed then ([], [], False)
      else (case store (DeleteStudent ident) of
              None \<Rightarrow> ([DeleteStudent ident], [], True)
            | Some error \<Rightarrow> ([DeleteStudent ident], [msg_error_eliminar_estudiante], False)))"

section \<open>AttendanceForm\<close>



text \<open>The roster search of the attendance form, with the same parameter.\<close>

definition roster_filteredStudents ::
  "lowercase_mapping \<Rightarrow> Student list \<Rightarrow> jsstring \<Rightarrow> Student list" where
  "roster_filteredStudents ucd students_loaded searchTerm =
     filter (\<lambda>student.
        let search = toLowerCase ucd searchTerm
        in str_includes (toLowerCase ucd (nombres student)) search
           \<or> str_includes (toLowerCase ucd (apellidos student)) search
           \<or> str_includes (toLowerCase ucd (codigo student)) search) students_loaded"

definition msg_estudiante_requerido :: jsstring where
  "msg_estudiante_requerido = js ''Debe seleccionar un estudiante''"

definition msg_fecha_requerida :: jsstring where
  "msg_fecha_requerida = js ''La fecha es requerida''"

definition msg_curso_requerido :: jsstring where
  "msg_curso_requerido = js ''El curso es requerido''"

definition msg_error_guardar_asistencia :: jsstring where
  "msg_error_guardar_asistencia = js ''Error al guardar el registro de asistencia''"

definition validate_attendance :: "jsstring AttendanceData \<Rightarrow> errors \<times> bool" where
  "validate_attendance formData =
     (let e0 = [];
          e1 = (if student_id formData = []
                then assign (js ''student_id'') msg_estudiante_requerido e0 else e0);
          e2 = (if fecha formData = []
                then assign (js ''fecha'') msg_fecha_requerida e1 else e1);
          e3 = (if trim (curso formData) = []
                then assign (js ''curso'') msg_curso_requerido e2 else e2)
      in (e3, length (keys e3) = 0))"

definition dataToSave_attendance ::
  "jsstring AttendanceData \<Rightarrow> jsstring option AttendanceData" where
  "dataToSave_attendance formData =
     \<lparr> student_id = student_id formData, fecha = fecha formData,
       estado = estado formData, hora_entrada = or_null (hora_entrada formData),
       curso = curso formData, observaciones = or_null (observaciones formData) \<rparr>"

definition handleSubmit_attendance ::
  "AttendanceWithStudent option \<Rightarrow> jsstring AttendanceData
     \<Rightarrow> (call \<Rightarrow> store_error option) \<Rightarrow> outcome" where
  "handleSubmit_attendance attendance_prop formData store =
     (case validate_attendance formData of
        (newErrors, ok) \<Rightarrow>
          if \<not> ok then \<lparr> calls = [], errors_after = newErrors, alerts = [], saved = False \<rparr>
          else
            let c = (case attendance_prop of
                       Some a \<Rightarrow> UpdateAttendance (a_id a) (dataToSave_attendance formData)
                     | None \<Rightarrow> InsertAttendance (dataToSave_attendance formData))
            in (case store c of
                  None \<Rightarrow> \<lparr> calls = [c], errors_after = newErrors, alerts = [], saved = True \<rparr>
                | Some error \<Rightarrow>
                    \<lparr> calls = [c], errors_after = newErrors,
                      alerts = [msg_error_guardar_asistencia], saved = False \<rparr>))"

section \<open>The store (supabase/migrations)\<close>

text \<open>
  The two tables of the migration. A statement either fails with an error object and
  leaves the tables as they were, or succeeds with the new tables. The constraints are
  those the migration declares: the primary keys, \<open>UNIQUE\<close> on \<open>codigo\<close>, \<open>dni\<close> and
  \<open>email\<close> (a null email collides with nothing), the \<open>CHECK\<close> on \<open>semestre\<close>, and the
  foreign key of \<open>attendance.student_id\<close> with \<open>ON DELETE CASCADE\<close>. The \<open>CHECK\<close> on
  \<open>estado\<close> holds by the type of the column here. The constraint names in the messages
  are the ones PostgreSQL gives to unnamed constraints.
\<close>

record Store =
  tbl_students :: "Student list"
  tbl_attendance :: "Attendance list"

text \<open>What the store itself supplies for a new row: \<open>gen_random_uuid()\<close> and \<open>now()\<close>.\<close>

record defaults =
  new_id :: jsstring
  now :: jsstring

definition quoted :: "jsstring \<Rightarrow> jsstring" where
  "quoted s = [0x22] @ s @ [0x22]"

definition unique_violation :: "string \<Rightarrow> store_error" where
  "unique_violation constraint_name =
     \<lparr> code = js ''23505'',
       message = js ''duplicate key value violates unique constraint ''
                 @ quoted (js constraint_name) \<rparr>"

definition check_violation :: "string \<Rightarrow> string \<Rightarrow> store_error" where
  "check_violation table_name constraint_name =
     \<lparr> code = js ''23514'',
       message = js ''new row for relation '' @ quoted (js table_name)
                 @ js '' violates check constraint '' @ quoted (js constraint_name) \<rparr>"

definition foreign_key_violation :: "string \<Rightarrow> string \<Rightarrow> store_error" where
  "foreign_key_violation table_name constraint_name =
     \<lparr> code = js ''23503'',
       message = js ''insert or update on table '' @ quoted (js table_name)
                 @ js '' violates foreign key constraint '' @ quoted (js constraint_name) \<rparr>"

definition student_row ::
  "jsstring \<Rightarrow> jsstring \<Rightarrow> jsstring \<Rightarrow> jsstring option StudentData \<Rightarrow> Student" where
  "student_row ident created updated p =
     \<lparr> codigo = codigo p, nombres = nombres p, apellidos = apellidos p, dni = dni p,
       carrera = carrera p, semestre = semestre p, email = email p,
       telefono = telefono p, activo = activo p,
       s_id = ident, s_created_at = created, updated_at = updated \<rparr>"

definition attendance_row ::
  "jsstring \<Rightarrow> jsstring \<Rightarrow> jsstring option AttendanceData \<Rightarrow> Attendance" where
  "attendance_row ident created p =
     \<lparr> student_id = student_id p, fecha = fecha p, estado = estado p,
       hora_entrada = hora_entrada p, curso = curso p, observaciones = observaciones p,
       a_id = ident, created_at = created \<rparr>"

text \<open>
  The constraints of \<open>students\<close> on a new row version, against the rows \<open>others\<close> it
  has to coexist with.
\<close>

definition students_constraints ::
  "jsstring \<Rightarrow> jsstring option StudentData \<Rightarrow> Student list \<Rightarrow> store_error option" where
  "students_constraints ident p others =
     (if \<not> (semestre p \<ge> 1 \<and> semestre p \<le> 6)
      then Some (check_violation ''students'' ''students_semestre_check'')
      else if ident \<in> set (map s_id others)
      then Some (unique_violation ''students_pkey'')
      else if codigo p \<in> set (map codigo others)
      then Some (unique_violation ''students_codigo_key'')
      else if dni p \<in> set (map dni others)
      then Some (unique_violation ''students_dni_key'')
      else if email p \<noteq> None \<and> email p \<in> set (map email others)
      then Some (unique_violation ''students_email_key'')
      else None)"

definition attendance_constraints ::
  "jsstring \<Rightarrow> jsstring option AttendanceData \<Rightarrow> Attendance list \<Rightarrow> Student list
     \<Rightarrow> store_error option" where
  "attendance_constraints ident p others studs =
     (if ident \<in> set (map a_id others)
      then Some (unique_violation ''attendance_pkey'')
      else if student_id p \<notin> set (map s_id studs)
      then Some (foreign_key_violation ''attendance'' ''attendance_student_id_fkey'')
      else None)"

text \<open>
  One mutation against the store. An update replaces the submitted columns of the
  rows with the given \<open>id\<close> (and the trigger sets \<open>updated_at\<close>); a delete of a student
  cascades to the attendance rows that reference it.
\<close>

fun exec :: "defaults \<Rightarrow> call \<Rightarrow> Store \<Rightarrow> store_error + Store" where
  "exec d (InsertStudent p) db =
     (case students_constraints (new_id d) p (tbl_students db) of
        Some e \<Rightarrow> Inl e
      | None \<Rightarrow>
          Inr (db\<lparr>tbl_students :=
                 tbl_students db @ [student_row (new_id d) (now d) (now d) p]\<rparr>))"
| "exec d (UpdateStudent ident p) db =
     (if ident \<notin> set (map s_id (tbl_students db)) then Inr db
      else (case students_constraints ident p
                   (filter (\<lambda>r. s_id r \<noteq> ident) (tbl_students db)) of
              Some e \<Rightarrow> Inl e
            | None \<Rightarrow>
                Inr (db\<lparr>tbl_students :=
                       map (\<lambda>r. if s_id r = ident
                                then student_row ident (s_created_at r) (now d) p else r)
                           (tbl_students db)\<rparr>)))"
| "exec d (DeleteStudent ident) db =
     Inr (db\<lparr>tbl_students := filter (\<lambda>r. s_id r \<noteq> ident) (tbl_students db),
             tbl_attendance := filter (\<lambda>a. student_id a \<noteq> ident) (tbl_attendance db)\<rparr>)"
| "exec d (InsertAttendance p) db =
     (case attendance_constraints (new_id d) p (tbl_attendance db) (tbl_students db) of
        Some e \<Rightarrow> Inl e
      | None \<Rightarrow>
          Inr (db\<lparr>tbl_attendance :=
                 tbl_attendance db @ [attendance_row (new_id d) (now d) p]\<rparr>))"
| "exec d (UpdateAttendance ident p) db =
     (if ident \<notin> set (map a_id (tbl_attendance db)) then Inr db
      else (case attendance_constraints ident p
                   (filter (\<lambda>a. a_id a \<noteq> ident) (tbl_attendance db)) (tbl_students db) of
              Some e \<Rightarrow> Inl e
            | None \<Rightarrow>
                Inr (db\<lparr>tbl_attendance :=
                       map (\<lambda>a. if a_id a = ident
                                then attendance_row ident (created_at a) p else a)
                           (tbl_attendance db)\<rparr>)))"
| "exec d (DeleteAttendance ident) db =
     Inr (db\<lparr>tbl_attendance := filter (\<lambda>a. a_id a \<noteq> ident) (tbl_attendance db)\<rparr>)"

definition empty_store :: Store where
  "empty_store = \<lparr> tbl_students = [], tbl_attendance = [] \<rparr>"

text \<open>The states the store can be in: the empty tables, and what successful
  mutations make of a reachable state.\<close>

inductive reachable :: "Store \<Rightarrow> bool" where
  reachable_empty: "reachable empty_store"
| reachable_exec: "reachable db \<Longrightarrow> exec d c db = Inr db' \<Longrightarrow> reachable db'"

text \<open>Referential integrity: every attendance row references a student row.\<close>

definition fk_ok :: "Store \<Rightarrow> bool" where
  "fk_ok db = list_all (\<lambda>a. student_id a \<in> set (map s_id (tbl_students db)))
                (tbl_attendance db)"

subsection \<open>Reading the attendance table\<close>

text \<open>
  A read of \<open>attendance\<close> with the embedded \<open>students (*)\<close>: equality filters on
  columns, and an ordering by a list of columns, each ascending or descending, the
  earlier column deciding first. Dates and time stamps are held in their ISO 8601
  rendering, whose code-unit order is the order of the values.
\<close>

datatype column = col_fecha | col_curso | col_created_at | col_student_id

record query =
  eqs :: "(column \<times> jsstring) list"
  order_by :: "(column \<times> bool) list"

fun column_value :: "column \<Rightarrow> AttendanceWithStudent \<Rightarrow> jsstring" where
  "column_value col_fecha a = fecha a"
| "column_value col_curso a = curso a"
| "column_value col_created_at a = created_at a"
| "column_value col_student_id a = student_id a"

fun row_before ::
  "(column \<times> bool) list \<Rightarrow> AttendanceWithStudent \<Rightarrow> AttendanceWithStudent \<Rightarrow> bool" where
  "row_before [] a b = True"
| "row_before ((c, ascending) # os) a b =
     (if column_value c a = column_value c b then row_before os a b
      else if ascending then column_value c a < column_value c b
      else column_value c b < column_value c a)"

fun insert_row :: "('a \<Rightarrow> 'a \<Rightarrow> bool) \<Rightarrow> 'a \<Rightarrow> 'a list \<Rightarrow> 'a list" where
  "insert_row le x [] = [x]"
| "insert_row le x (y # ys) = (if le x y then x # y # ys else y # insert_row le x ys)"

definition order_rows :: "('a \<Rightarrow> 'a \<Rightarrow> bool) \<Rightarrow> 'a list \<Rightarrow> 'a list" where
  "order_rows le xs = foldr (insert_row le) xs []"

definition join_student :: "Store \<Rightarrow> Attendance \<Rightarrow> AttendanceWithStudent" where
  "join_student db a =
     \<lparr> student_id = student_id a, fecha = fecha a, estado = estado a,
       hora_entrada = hora_entrada a, curso = curso a, observaciones = observaciones a,
       a_id = a_id a, created_at = created_at a,
       students = find (\<lambda>s. s_id s = student_id a) (tbl_students db) \<rparr>"

definition select_attendance :: "Store \<Rightarrow> query \<Rightarrow> AttendanceWithStudent list" where
  "select_attendance db q =
     order_rows (row_before (order_by q))
       (filter (\<lambda>a. list_all (\<lambda>(c, v). column_value c a = v) (eqs q))
          (map (join_student db) (tbl_attendance db)))"

section \<open>AttendanceList\<close>

record response =
  data :: "AttendanceWithStudent list option"
  error :: "store_error option"

record ListState =
  attendances :: "AttendanceWithStudent list"
  cursos :: "jsstring list"
  loading :: bool
  filterDate :: jsstring
  filterCurso :: jsstring

text \<open>\<open>[...new Set(xs)]\<close>: the distinct elements, each at its first occurrence.\<close>

definition new_Set :: "'a list \<Rightarrow> 'a list" where
  "new_Set xs = rev (remdups (rev xs))"

text \<open>\<open>xs.sort()\<close> on strings: ascending by code units.\<close>

definition sort_js :: "jsstring list \<Rightarrow> jsstring list" where
  "sort_js xs = sort xs"

definition build_query :: "jsstring \<Rightarrow> jsstring \<Rightarrow> query" where
  "build_query filter_date filter_curso =
     (let q0 = \<lparr> eqs = [], order_by = [(col_fecha, False), (col_created_at, False)] \<rparr>;
          q1 = (if filter_date \<noteq> [] then q0\<lparr>eqs := eqs q0 @ [(col_fecha, filter_date)]\<rparr>
                else q0);
          q2 = (if filter_curso \<noteq> [] then q1\<lparr>eqs := eqs q1 @ [(col_curso, filter_curso)]\<rparr>
                else q1)
      in q2)"

text \<open>
  \<open>loadAttendances\<close>: \<open>store_select\<close> is the store answering the query. An error
  leaves the list and the course options as they were.
\<close>

definition loadAttendances :: "ListState \<Rightarrow> (query \<Rightarrow> response) \<Rightarrow> ListState" where
  "loadAttendances st store_select =
     (let r = store_select (build_query (filterDate st) (filterCurso st))
      in (case error r of
            Some e \<Rightarrow> st\<lparr>loading := False\<rparr>
          | None \<Rightarrow>
              (let rows = (case data r of Some d \<Rightarrow> d | None \<Rightarrow> []);
                   uniqueCursos = sort_js (new_Set (map curso rows))
               in st\<lparr>attendances := rows, cursos := uniqueCursos, loading := False\<rparr>)))"

text \<open>The store answering a read from its tables.\<close>

definition answer :: "Store \<Rightarrow> query \<Rightarrow> response" where
  "answer db q = \<lparr> data = Some (select_attendance db q), error = None \<rparr>"

text \<open>The store answering a mutation from its tables.\<close>

definition answer_call :: "defaults \<Rightarrow> Store \<Rightarrow> call \<Rightarrow> store_error option" where
  "answer_call d db c = (case exec d c db of Inl e \<Rightarrow> Some e | Inr db' \<Rightarrow> None)"

text \<open>The rows the list holds after a load that the store answers from its tables.\<close>

definition loaded_rows :: "ListState \<Rightarrow> Store \<Rightarrow> AttendanceWithStudent list" where
  "loaded_rows st db = attendances (loadAttendances st (answer db))"

text \<open>
  The order the list asks for: later dates first, and within a date the entries created
  later first.
\<close>

definition date_then_created_desc :: "AttendanceWithStudent \<Rightarrow> AttendanceWithStudent \<Rightarrow> bool" where
  "date_then_created_desc a b \<longleftrightarrow>
     fecha b < fecha a \<or> (fecha a = fecha b \<and> created_at b \<le> created_at a)"

section \<open>Concrete inputs\<close>

text \<open>A store that accepts every mutation.\<close>

definition store_accepts :: "call \<Rightarrow> store_error option" where
  "store_accepts c = None"

text \<open>A student form that passes validation, and three variations of it.\<close>

definition ex_form :: "jsstring StudentData" where
  "ex_form =
     \<lparr> codigo = js ''SEN001'', nombres = js ''Juan'', apellidos = js ''Perez'',
       dni = js ''12345678'', carrera = js ''Contabilidad'', semestre = 3,
       email = [], telefono = [], activo = True \<rparr>"

definition ex_form_blank_codigo :: "jsstring StudentData" where
  "ex_form_blank_codigo = ex_form\<lparr>codigo := [0x20]\<rparr>"

definition ex_form_invalid :: "jsstring StudentData" where
  "ex_form_invalid =
     ex_form\<lparr>codigo := [], dni := js ''1234567'', semestre := 7, email := js ''juan@senati''\<rparr>"

text \<open>A student row.\<close>

definition ex_payload_ana :: "jsstring option StudentData" where
  "ex_payload_ana =
     \<lparr> codigo = js ''SEN002'', nombres = js ''Ana'', apellidos = js ''Diaz'',
       dni = js ''87654321'', carrera = js ''Contabilidad'', semestre = 2,
       email = None, telefono = None, activo = True \<rparr>"

definition ex_student :: Student where
  "ex_student =
     student_row (js ''u1'') (js ''2025-01-10T08:00:00Z'') (js ''2025-01-10T08:00:00Z'')
       ex_payload_ana"

text \<open>
  A store whose only student row has the identifier that the store draws for the next
  insert.
\<close>

definition ex_defaults :: defaults where
  "ex_defaults = \<lparr> new_id = js ''u1'', now = js ''2025-01-15T10:30:00Z'' \<rparr>"

definition ex_store_same_id :: Store where
  "ex_store_same_id = \<lparr> tbl_students = [ex_student], tbl_attendance = [] \<rparr>"




text \<open>An attendance form that passes validation, with both optional fields empty.\<close>

definition ex_attendance_form :: "jsstring AttendanceData" where
  "ex_attendance_form =
     \<lparr> student_id = js ''u1'', fecha = js ''2025-01-15'', estado = presente,
       hora_entrada = [], curso = js ''Redes'', observaciones = [] \<rparr>"




text \<open>
  A store with two students and four attendance entries, the state of an attendance
  list with given filters, and a small store built by two inserts.
\<close>

definition ex_payload_luis :: "jsstring option StudentData" where
  "ex_payload_luis =
     \<lparr> codigo = js ''SEN003'', nombres = js ''Luis'', apellidos = js ''Rojas'',
       dni = js ''11223344'', carrera = js ''Contabilidad'', semestre = 4,
       email = None, telefono = None, activo = True \<rparr>"

definition ex_attendance ::
  "jsstring \<Rightarrow> jsstring \<Rightarrow> jsstring \<Rightarrow> jsstring \<Rightarrow> jsstring \<Rightarrow> Attendance" where
  "ex_attendance ident sid day course created =
     attendance_row ident created
       \<lparr> student_id = sid, fecha = day, estado = presente, hora_entrada = None,
         curso = course, observaciones = None \<rparr>"

definition ex_store :: Store where
  "ex_store =
     \<lparr> tbl_students =
         [ex_student,
          student_row (js ''u2'') (js ''2025-01-10T09:00:00Z'') (js ''2025-01-10T09:00:00Z'')
            ex_payload_luis],
       tbl_attendance =
         [ex_attendance (js ''a1'') (js ''u1'') (js ''2025-01-15'') (js ''Redes'')
            (js ''2025-01-15T08:00:00Z''),
          ex_attendance (js ''a2'') (js ''u2'') (js ''2025-01-15'') (js ''Redes'')
            (js ''2025-01-15T09:00:00Z''),
          ex_attendance (js ''a3'') (js ''u1'') (js ''2025-01-14'') (js ''Fisica'')
            (js ''2025-01-14T08:00:00Z''),
          ex_attendance (js ''a4'') (js ''u2'') (js ''2025-01-15'') (js ''Algebra'')
            (js ''2025-01-15T10:00:00Z'')] \<rparr>"

definition ex_list_state :: "jsstring \<Rightarrow> jsstring \<Rightarrow> ListState" where
  "ex_list_state day course =
     \<lparr> attendances = [], cursos = [], loading = True, filterDate = day,
       filterCurso = course \<rparr>"

definition ex_store_small :: Store where
  "ex_store_small =
     \<lparr> tbl_students =
         [student_row (js ''u1'') (js ''2025-01-15T10:30:00Z'') (js ''2025-01-15T10:30:00Z'')
            ex_payload_ana],
       tbl_attendance =
         [attendance_row (js ''a1'') (js ''2025-01-15T10:31:00Z'')
            \<lparr> student_id = js ''u1'', fecha = js ''2025-01-15'', estado = presente,
              hora_entrada = None, curso = js ''Redes'', observaciones = None \<rparr>] \<rparr>"

section \<open>Strings and patterns: basic facts\<close>

lemma trim_empty_iff: "trim s = [] \<longleftrightarrow> (\<forall>c \<in> set s. is_space c)"
proof -
  have "trim s = [] \<longleftrightarrow> dropWhile is_space (rev (dropWhile is_space s)) = []"
    by (simp add: trim_def)
  also have "\<dots> \<longleftrightarrow> (\<forall>c \<in> set (dropWhile is_space s). is_space c)"
    by (simp add: dropWhile_eq_Nil_conv)
  also have "\<dots> \<longleftrightarrow> (\<forall>c \<in> set s. is_space c)"
  proof
    assume h: "\<forall>c \<in> set (dropWhile is_space s). is_space c"
    show "\<forall>c \<in> set s. is_space c"
    proof (cases "dropWhile is_space s")
      case Nil
      then show ?thesis by (simp add: dropWhile_eq_Nil_conv)
    next
      case (Cons a as)
      then have "\<not> is_space a" using hd_dropWhile[of is_space s] by auto 
      moreover have "a \<in> set (dropWhile is_space s)" using Cons by simp
      ultimately show ?thesis using h by blast
    qed
  next
    assume "\<forall>c \<in> set s. is_space c"
    then show "\<forall>c \<in> set (dropWhile is_space s). is_space c"
      using set_dropWhileD by fastforce
  qed
  finally show ?thesis .
qed

lemma nullable_lang: "nullable r \<longleftrightarrow> [] \<in> lang r"
  by (induction r) (auto intro: star.intros)

lemma star_cons_split:
  "x \<in> star L \<Longrightarrow> x = c # w \<Longrightarrow> \<exists>u v. w = u @ v \<and> c # u \<in> L \<and> v \<in> star L"
proof (induction arbitrary: w rule: star.induct)
  case star_nil
  then show ?case by simp
next
  case (star_app u v)
  show ?case
  proof (cases u)
    case Nil
    with star_app show ?thesis by simp
  next
    case (Cons a u')
    with star_app(1,2,4) show ?thesis by auto
  qed
qed

lemma star_cons_iff:
  "c # w \<in> star L \<longleftrightarrow> (\<exists>u v. w = u @ v \<and> c # u \<in> L \<and> v \<in> star L)"
proof
  assume "c # w \<in> star L"
  then show "\<exists>u v. w = u @ v \<and> c # u \<in> L \<and> v \<in> star L"
    by (rule star_cons_split) simp
next
  assume "\<exists>u v. w = u @ v \<and> c # u \<in> L \<and> v \<in> star L"
  then obtain u v where "w = u @ v" "c # u \<in> L" "v \<in> star L" by blast
  then show "c # w \<in> star L" using star_app[of "c # u" L v] by simp
qed

lemma deriv_lang: "s \<in> lang (deriv c r) \<longleftrightarrow> c # s \<in> lang r"
proof (induction r arbitrary: s)
  case (Seq r1 r2)
  show ?case
  proof (cases "nullable r1")
    case True
    then have n: "[] \<in> lang r1" by (simp add: nullable_lang)
    show ?thesis
      using True Seq n by (auto simp: Cons_eq_append_conv)
  next
    case False
    then have n: "[] \<notin> lang r1" by (simp add: nullable_lang)
    show ?thesis
      using False Seq n by (auto simp: Cons_eq_append_conv)
  qed
next
  case (Star r)
  then show ?case by (auto simp: star_cons_iff)
qed auto

lemma rx_test_lang: "rx_test r s \<longleftrightarrow> s \<in> lang r"
  by (induction s arbitrary: r) (simp_all add: nullable_lang deriv_lang)

lemma lang_seq_class_cons: "c # t \<in> lang (Seq (Class p) r) \<longleftrightarrow> p c \<and> t \<in> lang r"
proof
  assume "c # t \<in> lang (Seq (Class p) r)"
  then obtain u v c' where "c # t = u @ v" "u = [c']" "p c'" "v \<in> lang r" by auto
  then show "p c \<and> t \<in> lang r" by simp
next
  assume "p c \<and> t \<in> lang r"
  then have "c # t = [c] @ t \<and> [c] \<in> lang (Class p) \<and> t \<in> lang r" by simp
  then have "\<exists>u v. c # t = u @ v \<and> u \<in> lang (Class p) \<and> v \<in> lang r" by blast
  then show "c # t \<in> lang (Seq (Class p) r)" by simp
qed

lemma lang_seq_class_nil: "[] \<notin> lang (Seq (Class p) r)"
  by auto

lemma lang_times_class:
  "s \<in> lang (times n (Class p)) \<longleftrightarrow> length s = n \<and> (\<forall>c \<in> set s. p c)"
proof (induction n arbitrary: s)
  case 0
  show ?case by auto
next
  case (Suc n)
  show ?case
  proof (cases s)
    case Nil
    then show ?thesis using lang_seq_class_nil[of p "times n (Class p)"] by simp
  next
    case (Cons a t)
    have "s \<in> lang (times (Suc n) (Class p)) \<longleftrightarrow> p a \<and> t \<in> lang (times n (Class p))"
      unfolding Cons times.simps by (rule lang_seq_class_cons)
    then show ?thesis using Suc[of t] Cons by auto
  qed
qed

lemma dni_re_iff: "rx_test dni_re s \<longleftrightarrow> length s = 8 \<and> (\<forall>c \<in> set s. is_digit c)"
  by (simp add: rx_test_lang dni_re_def lang_times_class)

lemma star_class: "s \<in> star (lang (Class p)) \<longleftrightarrow> (\<forall>c \<in> set s. p c)"
proof
  assume "s \<in> star (lang (Class p))"
  then show "\<forall>c \<in> set s. p c"
    by (induction rule: star.induct) auto
next
  assume "\<forall>c \<in> set s. p c"
  then show "s \<in> star (lang (Class p))"
  proof (induction s)
    case Nil
    show ?case by (rule star_nil)
  next
    case (Cons a s)
    then have "[a] \<in> lang (Class p)" "s \<in> star (lang (Class p))" by auto
    then have "[a] @ s \<in> star (lang (Class p))" by (rule star_app)
    then show ?case by simp
  qed
qed

lemma lang_plus_class: "s \<in> lang (plus (Class p)) \<longleftrightarrow> s \<noteq> [] \<and> (\<forall>c \<in> set s. p c)"
proof (cases s)
  case Nil
  then show ?thesis using lang_seq_class_nil[of p "Star (Class p)"] by (simp add: plus_def)
next
  case (Cons a t)
  have "s \<in> lang (plus (Class p)) \<longleftrightarrow> p a \<and> t \<in> lang (Star (Class p))"
    unfolding Cons plus_def by (rule lang_seq_class_cons)
  then show ?thesis using star_class[of t p] Cons by simp
qed

lemma lang_single: "s \<in> lang (Class (\<lambda>c. c = k)) \<longleftrightarrow> s = [k]"
  by auto

lemma email_re_iff:
  "rx_test email_re s \<longleftrightarrow>
     (\<exists>a b c. s = a @ [0x40] @ b @ [0x2E] @ c
        \<and> a \<noteq> [] \<and> b \<noteq> [] \<and> c \<noteq> []
        \<and> (\<forall>x \<in> set (a @ b @ c). not_space_at x))"
proof -
  let ?P = "lang (plus (Class not_space_at))"
  have "rx_test email_re s \<longleftrightarrow>
      (\<exists>a r1. s = a @ r1 \<and> a \<in> ?P \<and> (\<exists>k1 r2. r1 = k1 @ r2 \<and> k1 = [0x40] \<and>
        (\<exists>b r3. r2 = b @ r3 \<and> b \<in> ?P \<and> (\<exists>k2 c. r3 = k2 @ c \<and> k2 = [0x2E] \<and> c \<in> ?P))))"
    unfolding rx_test_lang email_re_def lang.simps(4) lang_single[symmetric]
    by blast
  also have "\<dots> \<longleftrightarrow> (\<exists>a b c. s = a @ [0x40] @ b @ [0x2E] @ c \<and> a \<in> ?P \<and> b \<in> ?P \<and> c \<in> ?P)"
    by blast
  also have "\<dots> \<longleftrightarrow> (\<exists>a b c. s = a @ [0x40] @ b @ [0x2E] @ c
        \<and> a \<noteq> [] \<and> b \<noteq> [] \<and> c \<noteq> []
        \<and> (\<forall>x \<in> set (a @ b @ c). not_space_at x))"
    unfolding lang_plus_class by (simp add: ball_Un) blast
  finally show ?thesis .
qed

lemma set_keys_assign: "set (keys (assign k v obj)) = insert k (set (keys obj))"
proof (induction obj)
  case Nil
  show ?case by (simp add: keys_def)
next
  case (Cons kv obj)
  obtain k' v' where kv: "kv = (k', v')" by (cases kv)
  show ?case using Cons by (cases "k = k'") (auto simp: kv keys_def)
qed

lemma keys_empty_iff: "(length (keys obj) = 0) = (obj = [])"
  by (simp add: keys_def)

lemma assign_not_Nil: "assign k v obj \<noteq> []"
  by (cases "(k, v, obj)" rule: assign.cases) auto

section \<open>StudentForm: validation\<close>

lemma map_of_assign: "map_of (assign k v obj) = (map_of obj)(k \<mapsto> v)"
proof (induction obj)
  case Nil
  show ?case by simp
next
  case (Cons kv obj)
  obtain k' v' where kv: "kv = (k', v')" by (cases kv)
  show ?case using Cons by (cases "k = k'") (auto simp: kv)
qed

lemma field_names_distinct:
  "distinct [js ''codigo'', js ''nombres'', js ''apellidos'', js ''dni'', js ''carrera'',
             js ''semestre'', js ''email'']"
  by (simp add: js_def)

lemma lookup_cond_assign:
  "map_of (if c then assign k v e else e) k' = (if c \<and> k' = k then Some v else map_of e k')"
  by (simp add: map_of_assign)

lemma lookup_cond_assign2:
  "map_of (if c then assign k v e else if c' then assign k v' e else e) k' =
     (if c \<and> k' = k then Some v else if \<not> c \<and> c' \<and> k' = k then Some v' else map_of e k')"
  by (simp add: map_of_assign)

lemma validate_map:
  "map_of (fst (validate f)) k =
     (if email f \<noteq> [] \<and> \<not> rx_test email_re (email f) \<and> k = js ''email''
        then Some msg_email_invalido
      else if (semestre f < 1 \<or> semestre f > 6) \<and> k = js ''semestre''
        then Some msg_semestre_rango
      else if carrera f = [] \<and> k = js ''carrera'' then Some msg_carrera_requerida
      else if trim (dni f) = [] \<and> k = js ''dni'' then Some msg_dni_requerido
      else if trim (dni f) \<noteq> [] \<and> \<not> rx_test dni_re (dni f) \<and> k = js ''dni''
        then Some msg_dni_digitos
      else if trim (apellidos f) = [] \<and> k = js ''apellidos''
        then Some msg_apellidos_requeridos
      else if trim (nombres f) = [] \<and> k = js ''nombres'' then Some msg_nombres_requeridos
      else if trim (codigo f) = [] \<and> k = js ''codigo'' then Some msg_codigo_requerido
      else None)"
  unfolding validate_def Let_def fst_conv lookup_cond_assign lookup_cond_assign2
  by (simp split del: if_split cong: if_cong)

lemma digit_not_space: "is_digit c \<Longrightarrow> \<not> is_space c"
  unfolding is_digit_def is_space_def
  using order_trans[of "0x2000 :: unit16" c "0x39"] by auto

lemma rx_dni_not_blank:
  assumes "rx_test dni_re s"
  shows "trim s \<noteq> []"
proof -
  from assms have len: "length s = 8" and dig: "\<forall>c \<in> set s. is_digit c"
    by (simp_all add: dni_re_iff)
  from len obtain c t where "s = c # t" by (cases s) auto
  with dig have "c \<in> set s" "\<not> is_space c" by (auto dest: digit_not_space)
  then show ?thesis by (auto simp: trim_empty_iff)
qed

lemma js_neq:
  "js ''codigo'' \<noteq> js ''nombres''" "js ''codigo'' \<noteq> js ''apellidos''"
  "js ''codigo'' \<noteq> js ''dni''" "js ''codigo'' \<noteq> js ''carrera''"
  "js ''codigo'' \<noteq> js ''semestre''" "js ''codigo'' \<noteq> js ''email''"
  "js ''nombres'' \<noteq> js ''apellidos''" "js ''nombres'' \<noteq> js ''dni''"
  "js ''nombres'' \<noteq> js ''carrera''" "js ''nombres'' \<noteq> js ''semestre''"
  "js ''nombres'' \<noteq> js ''email''" "js ''apellidos'' \<noteq> js ''dni''"
  "js ''apellidos'' \<noteq> js ''carrera''" "js ''apellidos'' \<noteq> js ''semestre''"
  "js ''apellidos'' \<noteq> js ''email''" "js ''dni'' \<noteq> js ''carrera''"
  "js ''dni'' \<noteq> js ''semestre''" "js ''dni'' \<noteq> js ''email''"
  "js ''carrera'' \<noteq> js ''semestre''" "js ''carrera'' \<noteq> js ''email''"
  "js ''semestre'' \<noteq> js ''email''"
  using field_names_distinct by simp_all

lemma validate_codigo:
  "map_of (fst (validate f)) (js ''codigo'') =
     (if \<forall>c \<in> set (codigo f). is_space c then Some msg_codigo_requerido else None)"
  by (simp add: validate_map js_neq trim_empty_iff)

lemma validate_nombres:
  "map_of (fst (validate f)) (js ''nombres'') =
     (if \<forall>c \<in> set (nombres f). is_space c then Some msg_nombres_requeridos else None)"
  by (simp add: validate_map js_neq js_neq[symmetric] trim_empty_iff)

lemma validate_apellidos:
  "map_of (fst (validate f)) (js ''apellidos'') =
     (if \<forall>c \<in> set (apellidos f). is_space c then Some msg_apellidos_requeridos else None)"
  by (simp add: validate_map js_neq js_neq[symmetric] trim_empty_iff)

lemma validate_dni:
  "map_of (fst (validate f)) (js ''dni'') =
     (if length (dni f) = 8 \<and> (\<forall>c \<in> set (dni f). is_digit c) then None
      else if \<forall>c \<in> set (dni f). is_space c then Some msg_dni_requerido
      else Some msg_dni_digitos)"
  using rx_dni_not_blank[of "dni f"]
  by (auto simp add: validate_map js_neq js_neq[symmetric] trim_empty_iff dni_re_iff)

lemma validate_carrera:
  "map_of (fst (validate f)) (js ''carrera'') =
     (if carrera f = [] then Some msg_carrera_requerida else None)"
  by (simp add: validate_map js_neq js_neq[symmetric])

lemma validate_semestre:
  "map_of (fst (validate f)) (js ''semestre'') =
     (if semestre f < 1 \<or> 6 < semestre f then Some msg_semestre_rango else None)"
  by (simp add: validate_map js_neq js_neq[symmetric])

lemma validate_email:
  "map_of (fst (validate f)) (js ''email'') =
     (if email f \<noteq> [] \<and> \<not> rx_test email_re (email f) then Some msg_email_invalido else None)"
  by (simp add: validate_map js_neq js_neq[symmetric])

lemma validate_other:
  "k \<notin> set [js ''codigo'', js ''nombres'', js ''apellidos'', js ''dni'', js ''carrera'',
              js ''semestre'', js ''email''] \<Longrightarrow> map_of (fst (validate f)) k = None"
  by (simp add: validate_map)

lemma map_of_Nil_iff: "obj = [] \<longleftrightarrow> (\<forall>k. map_of obj k = None)"
proof (cases obj)
  case Nil
  then show ?thesis by simp
next
  case (Cons kv obj')
  then have "map_of obj (fst kv) = Some (snd kv)" by (cases kv) simp
  then show ?thesis using Cons by auto
qed

lemma validate_snd: "snd (validate f) \<longleftrightarrow> fst (validate f) = []"
  by (simp add: validate_def Let_def keys_def)

lemma handleSubmit_rejected:
  assumes "fst (validate f) \<noteq> []"
  shows "handleSubmit student f store =
       \<lparr> calls = [], errors_after = fst (validate f), alerts = [], saved = False \<rparr>"
proof -
  obtain e ok where v: "validate f = (e, ok)" by (cases "validate f")
  with assms validate_snd[of f] have "\<not> ok" by simp
  with v show ?thesis by (simp add: handleSubmit_def)
qed

lemma handleSubmit_accepted:
  assumes "fst (validate f) = []"
  shows "calls (handleSubmit student f store) =
       [case student of Some st \<Rightarrow> UpdateStudent (s_id st) (dataToSave f)
        | None \<Rightarrow> InsertStudent (dataToSave f)]"
proof -
  obtain e ok where v: "validate f = (e, ok)" by (cases "validate f")
  with assms validate_snd[of f] have "ok" by simp
  with v show ?thesis
    by (simp add: handleSubmit_def Let_def split: option.splits)
qed

lemma validate_empty_iff:
  "fst (validate f) = [] \<longleftrightarrow>
     \<not> list_all is_space (codigo f) \<and> \<not> list_all is_space (nombres f)
     \<and> \<not> list_all is_space (apellidos f)
     \<and> length (dni f) = 8 \<and> list_all is_digit (dni f)
     \<and> carrera f \<noteq> [] \<and> 1 \<le> semestre f \<and> semestre f \<le> 6
     \<and> (email f = [] \<or> rx_test email_re (email f))"
  (is "?L \<longleftrightarrow> ?R")
proof
  assume ?L
  then have n: "map_of (fst (validate f)) k = None" for k by simp
  show ?R
    using n[of "js ''codigo''"] n[of "js ''nombres''"] n[of "js ''apellidos''"]
      n[of "js ''dni''"] n[of "js ''carrera''"] n[of "js ''semestre''"] n[of "js ''email''"]
    unfolding validate_codigo validate_nombres validate_apellidos validate_dni
      validate_carrera validate_semestre validate_email
    by (simp add: list_all_iff split: if_splits)
next
  assume r: ?R
  have d: "rx_test dni_re (dni f)" using r by (simp add: dni_re_iff list_all_iff)
  have t: "trim (codigo f) \<noteq> []" "trim (nombres f) \<noteq> []" "trim (apellidos f) \<noteq> []"
    "trim (dni f) \<noteq> []"
    using r rx_dni_not_blank[OF d] by (simp_all add: trim_empty_iff list_all_iff)
  have o: "carrera f \<noteq> []" "\<not> (semestre f < 1 \<or> semestre f > 6)"
    "\<not> (email f \<noteq> [] \<and> \<not> rx_test email_re (email f))"
    using r by auto
  have "map_of (fst (validate f)) k = None" for k
    unfolding validate_map using d t o by auto
  then show ?L by (simp add: map_of_Nil_iff)
qed

lemma ex_form_valid: "fst (validate ex_form) = []"
  unfolding validate_empty_iff
  by (simp add: ex_form_def js_def is_space_def is_digit_def)

lemma ex_form_blank_codigo_errors:
  "fst (validate ex_form_blank_codigo) = [(js ''codigo'', msg_codigo_requerido)]"
  by code_simp

lemma ex_form_invalid_errors:
  "fst (validate ex_form_invalid) =
     [(js ''codigo'', msg_codigo_requerido), (js ''dni'', msg_dni_digitos),
      (js ''semestre'', msg_semestre_rango), (js ''email'', msg_email_invalido)]"
  by code_simp

lemma validate_keys_subset:
  "set (keys (fst (validate f))) \<subseteq>
     set [js ''codigo'', js ''nombres'', js ''apellidos'', js ''dni'', js ''carrera'',
          js ''semestre'', js ''email'']"
  (is "_ \<subseteq> ?N")
proof
  fix k
  assume "k \<in> set (keys (fst (validate f)))"
  then have some: "map_of (fst (validate f)) k \<noteq> None"
    by (simp add: keys_def map_of_eq_None_iff)
  show "k \<in> ?N"
  proof (rule ccontr)
    assume "k \<notin> ?N"
    then have "map_of (fst (validate f)) k = None" by (rule validate_other)
    with some show False by contradiction
  qed
qed


section \<open>Searching and the attendance form\<close>

lemma starts_with_iff: "starts_with s t \<longleftrightarrow> (\<exists>after. s = t @ after)"
  by (induction s t rule: starts_with.induct) auto

lemma str_includes_iff: "str_includes s t \<longleftrightarrow> is_substring t s"
proof (induction s)
  case Nil
  show ?case by (auto simp: is_substring_def)
next
  case (Cons x s)
  show ?case
  proof
    assume "str_includes (x # s) t"
    then consider "starts_with (x # s) t" | "str_includes s t" by auto
    then show "is_substring t (x # s)"
    proof cases
      case 1
      then obtain after where "x # s = [] @ t @ after" by (auto simp: starts_with_iff)
      then show ?thesis unfolding is_substring_def by blast
    next
      case 2
      then obtain b a where "s = b @ t @ a" using Cons by (auto simp: is_substring_def)
      then have "x # s = (x # b) @ t @ a" by simp
      then show ?thesis unfolding is_substring_def by blast
    qed
  next
    assume "is_substring t (x # s)"
    then obtain b a where ba: "x # s = b @ t @ a" by (auto simp: is_substring_def)
    show "str_includes (x # s) t"
    proof (cases b)
      case Nil
      with ba have "starts_with (x # s) t" by (auto simp: starts_with_iff)
      then show ?thesis by simp
    next
      case (Cons y b')
      with ba have "s = b' @ t @ a" by simp
      then have "is_substring t s" unfolding is_substring_def by blast
      then show ?thesis using Cons.IH by simp
    qed
  qed
qed

lemma str_includes_empty: "str_includes s []"
  by (cases s) simp_all

lemma toLowerCase_empty: "toLowerCase ucd [] = []"
  by (simp add: toLowerCase_def CodePointsToString_def)




section \<open>The store and the attendance list\<close>

lemma set_insert_row: "set (insert_row le x xs) = insert x (set xs)"
  by (induction xs) auto

lemma set_order_rows: "set (order_rows le xs) = set xs"
  unfolding order_rows_def by (induction xs) (simp_all add: set_insert_row)

lemma length_insert_row: "length (insert_row le x xs) = Suc (length xs)"
  by (induction xs) auto

lemma length_order_rows: "length (order_rows le xs) = length xs"
  unfolding order_rows_def by (induction xs) (simp_all add: length_insert_row)

lemma sorted_insert_row:
  assumes total: "\<And>a b. le a b \<or> le b a"
    and trans: "\<And>a b c. le a b \<Longrightarrow> le b c \<Longrightarrow> le a c"
    and "sorted_wrt le xs"
  shows "sorted_wrt le (insert_row le x xs)"
  using assms(3)
proof (induction xs)
  case Nil
  show ?case by simp
next
  case (Cons y ys)
  show ?case
  proof (cases "le x y")
    case True
    then have "\<forall>z \<in> set ys. le x z" using Cons.prems trans by auto
    then show ?thesis using True Cons.prems by simp
  next
    case False
    then have "le y x" using total by blast
    then show ?thesis using False Cons by (auto simp: set_insert_row)
  qed
qed

lemma sorted_order_rows:
  assumes "\<And>a b. le a b \<or> le b a"
    and "\<And>a b c. le a b \<Longrightarrow> le b c \<Longrightarrow> le a c"
  shows "sorted_wrt le (order_rows le xs)"
  unfolding order_rows_def
  by (induction xs) (simp_all add: sorted_insert_row[OF assms])

lemma row_before_total: "row_before os a b \<or> row_before os b a"
  by (induction os a b rule: row_before.induct) auto

lemma row_before_trans: "row_before os a b \<Longrightarrow> row_before os b c \<Longrightarrow> row_before os a c"
proof (induction os arbitrary: a b c)
  case Nil
  show ?case by simp
next
  case (Cons o1 os)
  obtain col asc where o1: "o1 = (col, asc)" by (cases o1)
  show ?case
    using Cons.prems Cons.IH[of a b c] unfolding o1
    by (auto split: if_splits)
qed

lemma row_before_date_created:
  "row_before [(col_fecha, False), (col_created_at, False)] a b = date_then_created_desc a b"
  by (auto simp: date_then_created_desc_def)

lemma loaded_rows_select:
  "loaded_rows st db = select_attendance db (build_query (filterDate st) (filterCurso st))"
  by (simp add: loaded_rows_def loadAttendances_def answer_def Let_def)

lemma build_query_both:
  "fd \<noteq> [] \<Longrightarrow> fc \<noteq> [] \<Longrightarrow>
     build_query fd fc =
       \<lparr> eqs = [(col_fecha, fd), (col_curso, fc)],
         order_by = [(col_fecha, False), (col_created_at, False)] \<rparr>"
  by (simp add: build_query_def)

lemma order_by_build_query:
  "order_by (build_query fd fc) = [(col_fecha, False), (col_created_at, False)]"
  by (simp add: build_query_def Let_def)

lemma join_student_fields:
  "student_id (join_student db a) = student_id a"
  "fecha (join_student db a) = fecha a"
  "curso (join_student db a) = curso a"
  "created_at (join_student db a) = created_at a"
  "a_id (join_student db a) = a_id a"
  "students (join_student db a) = find (\<lambda>s. s_id s = student_id a) (tbl_students db)"
  by (simp_all add: join_student_def)

lemma set_select_attendance:
  "set (select_attendance db q) =
     {r \<in> join_student db ` set (tbl_attendance db).
        list_all (\<lambda>(c, v). column_value c r = v) (eqs q)}"
  by (auto simp: select_attendance_def set_order_rows)

lemma length_select_attendance:
  "length (select_attendance db q) =
     length (filter (\<lambda>a. list_all (\<lambda>(c, v). column_value c (join_student db a) = v) (eqs q))
               (tbl_attendance db))"
  by (simp add: select_attendance_def length_order_rows filter_map comp_def)

lemma sorted_select_attendance:
  "sorted_wrt (row_before (order_by q)) (select_attendance db q)"
  unfolding select_attendance_def
  by (rule sorted_order_rows) (rule row_before_total, erule (1) row_before_trans)

lemma find_owner:
  assumes "sid \<in> set (map s_id studs)"
  shows "\<exists>s \<in> set studs. find (\<lambda>s. s_id s = sid) studs = Some s \<and> s_id s = sid"
  using assms by (induction studs) auto

lemma ex_store_fk: "fk_ok ex_store"
  by code_simp

lemma ex_loaded_rows:
  "map a_id (loaded_rows (ex_list_state (js ''2025-01-15'') (js ''Redes'')) ex_store)
     = [js ''a2'', js ''a1'']"
  by code_simp

lemma set_new_Set: "set (new_Set xs) = set xs"
  by (simp add: new_Set_def)

lemma distinct_new_Set: "distinct (new_Set xs)"
  by (simp add: new_Set_def)

lemma ex_cursos:
  "cursos (loadAttendances (ex_list_state (js ''2025-01-15'') []) (answer ex_store))
     = [js ''Algebra'', js ''Redes'']"
  by code_simp

lemma ex_table_cursos:
  "map curso (tbl_attendance ex_store) = [js ''Redes'', js ''Redes'', js ''Fisica'', js ''Algebra'']"
  by code_simp

lemma constraints_fk:
  "attendance_constraints i p others studs = None \<Longrightarrow> student_id p \<in> set (map s_id studs)"
  by (simp add: attendance_constraints_def split: if_splits)

lemma student_row_id: "s_id (student_row i c u p) = i"
  by (simp add: student_row_def)

lemma attendance_row_student: "student_id (attendance_row i c p) = student_id p"
  by (simp add: attendance_row_def)

lemma fk_ok_iff:
  "fk_ok db \<longleftrightarrow> student_id ` set (tbl_attendance db) \<subseteq> s_id ` set (tbl_students db)"
  by (auto simp: fk_ok_def list_all_iff)

lemma ids_after_update:
  "s_id ` set (map (\<lambda>r. if s_id r = i then student_row i (s_created_at r) t p else r) rows)
     = s_id ` set rows"
proof -
  have "s_id (if s_id r = i then student_row i (s_created_at r) t p else r) = s_id r" for r
    by (simp add: student_row_id)
  then have "map s_id (map (\<lambda>r. if s_id r = i then student_row i (s_created_at r) t p else r) rows)
      = map s_id rows"
    by (simp add: comp_def)
  then show ?thesis by (metis set_map)
qed

lemma fk1:
  assumes "fk_ok db" and "exec d (InsertStudent p) db = Inr db'"
  shows "fk_ok db'"
proof -
  from assms(2) have "db' = db\<lparr>tbl_students :=
      tbl_students db @ [student_row (new_id d) (now d) (now d) p]\<rparr>"
    by (simp split: option.splits)
  then show ?thesis using assms(1) unfolding fk_ok_iff by auto
qed

lemma fk2:
  assumes "fk_ok db" and "exec d (UpdateStudent i p) db = Inr db'"
  shows "fk_ok db'"
proof -
  from assms(2) consider "db' = db"
    | "db' = db\<lparr>tbl_students :=
         map (\<lambda>r. if s_id r = i then student_row i (s_created_at r) (now d) p else r)
           (tbl_students db)\<rparr>"
    by (auto split: option.splits if_splits)
  then show ?thesis
  proof cases
    case 1
    then show ?thesis using assms(1) by simp
  next
    case 2
    show ?thesis using assms(1) unfolding fk_ok_iff 2
      by (simp add: ids_after_update del: set_map)
  qed
qed

lemma fk3:
  assumes "fk_ok db" and "exec d (DeleteStudent i) db = Inr db'"
  shows "fk_ok db'"
proof -
  from assms(2) have "db' = db\<lparr>tbl_students := filter (\<lambda>r. s_id r \<noteq> i) (tbl_students db),
             tbl_attendance := filter (\<lambda>a. student_id a \<noteq> i) (tbl_attendance db)\<rparr>"
    by simp
  then show ?thesis using assms(1) unfolding fk_ok_iff by auto
qed

lemma fk4:
  assumes "fk_ok db" and "exec d (InsertAttendance p) db = Inr db'"
  shows "fk_ok db'"
proof -
  from assms(2) have c: "attendance_constraints (new_id d) p (tbl_attendance db) (tbl_students db) = None"
    and e: "db' = db\<lparr>tbl_attendance :=
                 tbl_attendance db @ [attendance_row (new_id d) (now d) p]\<rparr>"
    by (simp_all split: option.splits)
  from constraints_fk[OF c] show ?thesis using assms(1) unfolding fk_ok_iff e
    by (auto simp: attendance_row_student)
qed

lemma fk5:
  assumes "fk_ok db" and "exec d (UpdateAttendance i p) db = Inr db'"
  shows "fk_ok db'"
proof -
  from assms(2) consider "db' = db"
    | "attendance_constraints i p (filter (\<lambda>a. a_id a \<noteq> i) (tbl_attendance db))
         (tbl_students db) = None"
      "db' = db\<lparr>tbl_attendance :=
         map (\<lambda>a. if a_id a = i then attendance_row i (created_at a) p else a)
           (tbl_attendance db)\<rparr>"
    by (auto split: option.splits if_splits)
  then show ?thesis
  proof cases
    case 1
    then show ?thesis using assms(1) by simp
  next
    case 2
    from constraints_fk[OF 2(1)] show ?thesis using assms(1) unfolding fk_ok_iff 2(2)
      by (auto simp: attendance_row_student)
  qed
qed

lemma fk6:
  assumes "fk_ok db" and "exec d (DeleteAttendance i) db = Inr db'"
  shows "fk_ok db'"
proof -
  from assms(2) have "db' = db\<lparr>tbl_attendance := filter (\<lambda>a. a_id a \<noteq> i) (tbl_attendance db)\<rparr>"
    by simp
  then show ?thesis using assms(1) unfolding fk_ok_iff by auto
qed

lemma exec_keeps_fk:
  assumes "fk_ok db" and "exec d c db = Inr db'"
  shows "fk_ok db'"
  using assms by (cases c) (auto intro: fk1 fk2 fk3 fk4 fk5 fk6 simp del: exec.simps)

lemma reachable_fk: "reachable db \<Longrightarrow> fk_ok db"
proof (induction rule: reachable.induct)
  case reachable_empty
  show ?case by (simp add: fk_ok_def empty_store_def)
next
  case (reachable_exec db d c db')
  then show ?case using exec_keeps_fk by blast
qed

lemma ex_store_small_reachable: "reachable ex_store_small"
proof -
  have 1: "exec ex_defaults (InsertStudent ex_payload_ana) empty_store
      = Inr \<lparr> tbl_students =
         [student_row (js ''u1'') (js ''2025-01-15T10:30:00Z'') (js ''2025-01-15T10:30:00Z'')
            ex_payload_ana], tbl_attendance = [] \<rparr>"
    by code_simp
  have 2: "exec \<lparr> new_id = js ''a1'', now = js ''2025-01-15T10:31:00Z'' \<rparr>
      (InsertAttendance \<lparr> student_id = js ''u1'', fecha = js ''2025-01-15'', estado = presente,
              hora_entrada = None, curso = js ''Redes'', observaciones = None \<rparr>)
       \<lparr> tbl_students =
         [student_row (js ''u1'') (js ''2025-01-15T10:30:00Z'') (js ''2025-01-15T10:30:00Z'')
            ex_payload_ana], tbl_attendance = [] \<rparr> = Inr ex_store_small"
    by code_simp
  show ?thesis
    using reachable_exec[OF reachable_exec[OF reachable_empty 1] 2] .
qed

section \<open>Lower-casing on Basic Latin\<close>

lemma not_lead_basic_latin: "c < 0x80 \<Longrightarrow> \<not> is_lead c"
  unfolding is_lead_def using order.strict_trans2[of c "0x80" "0xD800"] by auto

lemma code_points_basic_latin:
  "list_all (\<lambda>c. c < 0x80) s \<Longrightarrow> StringToCodePoints s = map uint s"
  by (induction s rule: StringToCodePoints.induct) (simp_all add: not_lead_basic_latin)

lemma uint_basic_latin: "c < (0x80 :: unit16) \<Longrightarrow> uint c < 0x80"
  by (simp add: word_less_def)

lemma lower_points_agree:
  assumes "agrees_on_basic_latin ucd" and "list_all (\<lambda>cp. cp < 0x80) cps"
  shows "lower_points ucd before cps = lower_points basic_latin before cps"
  using assms(2)
proof (induction cps arbitrary: before)
  case Nil
  show ?case by simp
next
  case (Cons cp cps)
  then have "ucd before cp cps = basic_latin before cp cps"
    using assms(1) by (simp add: agrees_on_basic_latin_def)
  then show ?case using Cons by simp
qed

lemma toLowerCase_agree:
  assumes "agrees_on_basic_latin ucd" and "basic_latin_string s"
  shows "toLowerCase ucd s = toLowerCase basic_latin s"
proof -
  from assms(2) have a: "list_all (\<lambda>c. c < 0x80) s" by (simp add: basic_latin_string_def)
  then have "list_all (\<lambda>cp. cp < 0x80) (map uint s)"
    by (simp add: list_all_iff uint_basic_latin)
  then show ?thesis
    using lower_points_agree[OF assms(1)] code_points_basic_latin[OF a]
    by (simp add: toLowerCase_def)
qed

lemma ex_student_basic_latin:
  "basic_latin_string (js ''8765'')" "basic_latin_string (nombres ex_student)"
  "basic_latin_string (apellidos ex_student)" "basic_latin_string (codigo ex_student)"
  by code_simp+

lemma search_by_dni_any_mapping:
  assumes "agrees_on_basic_latin ucd"
  shows "filteredStudents ucd [ex_student] (js ''8765'') = [ex_student]
   \<and> \<not> is_substring (toLowerCase ucd (js ''8765'')) (toLowerCase ucd (nombres ex_student))
   \<and> \<not> is_substring (toLowerCase ucd (js ''8765'')) (toLowerCase ucd (apellidos ex_student))
   \<and> \<not> is_substring (toLowerCase ucd (js ''8765'')) (toLowerCase ucd (codigo ex_student))"
proof -
  have b: "filteredStudents basic_latin [ex_student] (js ''8765'') = [ex_student]
   \<and> \<not> str_includes (toLowerCase basic_latin (nombres ex_student))
         (toLowerCase basic_latin (js ''8765''))
   \<and> \<not> str_includes (toLowerCase basic_latin (apellidos ex_student))
         (toLowerCase basic_latin (js ''8765''))
   \<and> \<not> str_includes (toLowerCase basic_latin (codigo ex_student))
         (toLowerCase basic_latin (js ''8765''))"
    by code_simp
  note eq = toLowerCase_agree[OF assms ex_student_basic_latin(1)]
    toLowerCase_agree[OF assms ex_student_basic_latin(2)]
    toLowerCase_agree[OF assms ex_student_basic_latin(3)]
    toLowerCase_agree[OF assms ex_student_basic_latin(4)]
  have "filteredStudents ucd [ex_student] (js ''8765'')
      = filteredStudents basic_latin [ex_student] (js ''8765'')"
    by (simp add: filteredStudents_def Let_def eq)
  with b show ?thesis by (simp add: eq str_includes_iff)
qed

text \<open>
  On Basic Latin the search does ignore case: \<open>DIAZ\<close> finds the family name
  \<open>Diaz\<close>, and a term that occurs in no field finds nothing.
\<close>

lemma search_ignores_case_on_basic_latin:
  assumes "agrees_on_basic_latin ucd"
  shows "filteredStudents ucd [ex_student] (js ''DIAZ'') = [ex_student]
   \<and> roster_filteredStudents ucd [ex_student] (js ''DIAZ'') = [ex_student]
   \<and> filteredStudents ucd [ex_student] (js ''xyz'') = []"
proof -
  have t: "basic_latin_string (js ''DIAZ'')" "basic_latin_string (js ''xyz'')"
    by code_simp+
  have b: "filteredStudents basic_latin [ex_student] (js ''DIAZ'') = [ex_student]
   \<and> roster_filteredStudents basic_latin [ex_student] (js ''DIAZ'') = [ex_student]
   \<and> filteredStudents basic_latin [ex_student] (js ''xyz'') = []"
    by code_simp
  note eq = toLowerCase_agree[OF assms t(1)] toLowerCase_agree[OF assms t(2)]
    toLowerCase_agree[OF assms ex_student_basic_latin(2)]
    toLowerCase_agree[OF assms ex_student_basic_latin(3)]
    toLowerCase_agree[OF assms ex_student_basic_latin(4)]
  have "filteredStudents ucd [ex_student] (js ''DIAZ'')
      = filteredStudents basic_latin [ex_student] (js ''DIAZ'')"
    "roster_filteredStudents ucd [ex_student] (js ''DIAZ'')
      = roster_filteredStudents basic_latin [ex_student] (js ''DIAZ'')"
    "filteredStudents ucd [ex_student] (js ''xyz'')
      = filteredStudents basic_latin [ex_student] (js ''xyz'')"
    by (simp_all add: filteredStudents_def roster_filteredStudents_def Let_def eq)
  with b show ?thesis by simp
qed

section \<open>Dates: the year of a time value and the ISO rendering\<close>

lemma leap_days_after_1970:
  assumes "0 \<le> (k::int)"
  shows "(k + 1) div 4 - (k + 69) div 100 + (k + 369) div 400 \<le> k"
proof -
  have a: "(k + 1) div 4 \<le> k" using assms by linarith
  have "400 * ((k + 369) div 400) \<le> k + 369" by simp
  moreover have "k + 69 < 100 * ((k + 69) div 100) + 100" by simp
  moreover have "0 \<le> (k + 69) div 100" using assms by simp
  ultimately have b: "(k + 369) div 400 \<le> (k + 69) div 100" by linarith
  from a b show ?thesis by linarith
qed

lemma leap_days_before_1970:
  assumes "(k::int) < 0"
  shows "(k + 1) div 4 - (k + 69) div 100 + (k + 369) div 400 \<le> 0"
proof (cases "k = -1")
  case True
  then show ?thesis by simp
next
  case False
  then have k: "k \<le> -2" using assms by simp
  have "4 * ((k + 1) div 4) \<le> k + 1" by simp
  moreover have "400 * ((k + 369) div 400) \<le> k + 369" by simp
  moreover have "k + 69 < 100 * ((k + 69) div 100) + 100" by simp
  ultimately show ?thesis using k by linarith
qed

lemma lower_bound_ok: "DayFromYear (year_lower_bound d) \<le> d"
proof (cases "0 \<le> d")
  case True
  define k where "k = d div 366"
  have k: "0 \<le> k" "366 * k \<le> d" using True by (simp_all add: k_def)
  have "DayFromYear (1970 + k) = 365 * k + ((k + 1) div 4 - (k + 69) div 100 + (k + 369) div 400)"
    by (simp add: DayFromYear_def algebra_simps)
  then show ?thesis
    using leap_days_after_1970[OF k(1)] k(2) True
    by (simp add: year_lower_bound_def k_def)
next
  case False
  define k where "k = d div 365"
  have k: "k < 0" "365 * k \<le> d" using False by (simp_all add: k_def)
  have "DayFromYear (1970 + k) = 365 * k + ((k + 1) div 4 - (k + 69) div 100 + (k + 369) div 400)"
    by (simp add: DayFromYear_def algebra_simps)
  then show ?thesis
    using leap_days_before_1970[OF k(1)] k(2) False
    by (simp add: year_lower_bound_def k_def)
qed

lemma year_from_upper: "d < DayFromYear (year_from y d + 1)"
proof (induction y d rule: year_from.induct)
  case (1 y d)
  show ?case
  proof (cases "DayFromYear (y + 1) \<le> d")
    case True
    then have "year_from y d = year_from (y + 1) d" by (subst year_from.simps) simp
    with 1 True show ?thesis by simp
  next
    case False
    then have "year_from y d = y" by (subst year_from.simps) simp
    with False show ?thesis by simp
  qed
qed

lemma year_from_lower: "DayFromYear y \<le> d \<Longrightarrow> DayFromYear (year_from y d) \<le> d"
proof (induction y d rule: year_from.induct)
  case (1 y d)
  show ?case
  proof (cases "DayFromYear (y + 1) \<le> d")
    case True
    then have "year_from y d = year_from (y + 1) d" by (subst year_from.simps) simp
    with 1 True show ?thesis by simp
  next
    case False
    then have "year_from y d = y" by (subst year_from.simps) simp
    with 1 show ?thesis by simp
  qed
qed

lemma YearFromTime_spec:
  "DayFromYear (YearFromTime t) \<le> Day t \<and> Day t < DayFromYear (YearFromTime t + 1)"
  unfolding YearFromTime_def
  using year_from_lower[OF lower_bound_ok] year_from_upper by blast

lemma toISOString_examples:
  "toISOString 0 = js ''1970-01-01T00:00:00.000Z''"
  "toISOString 1736998200000 = js ''2025-01-16T03:30:00.000Z''"
  "toISOString 1709251199000 = js ''2024-02-29T23:59:59.000Z''"
  "toISOString (- 1000) = js ''1969-12-31T23:59:59.000Z''"
  "toISOString (- 2203891200000) = js ''1900-03-01T00:00:00.000Z''"
  by code_simp+







section \<open>What the forms send and what the store answers\<close>

lemma validate_attendance_snd: "snd (validate_attendance g) \<longleftrightarrow> fst (validate_attendance g) = []"
  by (simp add: validate_attendance_def Let_def keys_def)

lemma handleSubmit_attendance_accepted:
  assumes "fst (validate_attendance g) = []"
  shows "calls (handleSubmit_attendance attendance_prop g store) =
       [case attendance_prop of
          Some a \<Rightarrow> UpdateAttendance (a_id a) (dataToSave_attendance g)
        | None \<Rightarrow> InsertAttendance (dataToSave_attendance g)]"
proof -
  obtain e ok where v: "validate_attendance g = (e, ok)" by (cases "validate_attendance g")
  with assms validate_attendance_snd[of g] have "ok" by simp
  with v show ?thesis
    by (simp add: handleSubmit_attendance_def Let_def split: option.splits)
qed

lemma insert_student_row:
  "exec d (InsertStudent p) db = Inr db' \<Longrightarrow>
     tbl_students db' = tbl_students db @ [student_row (new_id d) (now d) (now d) p]"
  by (auto split: option.splits)

lemma update_student_rows:
  assumes "exec d (UpdateStudent i p) db = Inr db'" and "r \<in> set (tbl_students db')"
    and "s_id r = i"
  shows "email r = email p \<and> telefono r = telefono p"
proof -
  from assms(1) consider "i \<notin> set (map s_id (tbl_students db))" "db' = db"
    | "tbl_students db' =
         map (\<lambda>r. if s_id r = i then student_row i (s_created_at r) (now d) p else r)
           (tbl_students db)"
    by (auto split: option.splits if_splits)
  then show ?thesis
  proof cases
    case 1
    with assms(2,3) show ?thesis by auto
  next
    case 2
    let ?F = "\<lambda>r. if s_id r = i then student_row i (s_created_at r) (now d) p else r"
    from 2 assms(2) have "r \<in> ?F ` set (tbl_students db)" by simp
    then obtain r0 where "r = ?F r0" by blast
    with assms(3) have "r = student_row i (s_created_at r0) (now d) p"
      by (auto split: if_splits)
    then show ?thesis by (simp add: student_row_def)
  qed
qed

lemma insert_attendance_row:
  "exec d (InsertAttendance p) db = Inr db' \<Longrightarrow>
     tbl_attendance db' = tbl_attendance db @ [attendance_row (new_id d) (now d) p]"
  by (auto split: option.splits)

lemma update_attendance_rows:
  assumes "exec d (UpdateAttendance i p) db = Inr db'" and "r \<in> set (tbl_attendance db')"
    and "a_id r = i"
  shows "hora_entrada r = hora_entrada p \<and> observaciones r = observaciones p"
proof -
  from assms(1) consider "i \<notin> set (map a_id (tbl_attendance db))" "db' = db"
    | "tbl_attendance db' =
         map (\<lambda>a. if a_id a = i then attendance_row i (created_at a) p else a)
           (tbl_attendance db)"
    by (auto split: option.splits if_splits)
  then show ?thesis
  proof cases
    case 1
    with assms(2,3) show ?thesis by auto
  next
    case 2
    let ?F = "\<lambda>a. if a_id a = i then attendance_row i (created_at a) p else a"
    from 2 assms(2) have "r \<in> ?F ` set (tbl_attendance db)" by simp
    then obtain r0 where "r = ?F r0" by blast
    with assms(3) have "r = attendance_row i (created_at r0) p"
      by (auto split: if_splits)
    then show ?thesis by (simp add: attendance_row_def)
  qed
qed








text \<open>
  The one answer of the store that the student form would report nowhere: a uniqueness
  violation of the primary key, whose message names none of the three fields. It
  needs the store to draw, for the new row, an identifier that is already in the table.
\<close>

lemma repeated_id_violation_unreported:
  "exec ex_defaults (InsertStudent (dataToSave ex_form)) ex_store_same_id
     = Inl (unique_violation ''students_pkey'')
   \<and> code (unique_violation ''students_pkey'') = js ''23505''
   \<and> handleSubmit None ex_form (answer_call ex_defaults ex_store_same_id) =
       \<lparr> calls = [InsertStudent (dataToSave ex_form)], errors_after = [],
         alerts = [], saved = False \<rparr>"
  by code_simp

section \<open>The claims\<close>

text \<open>
  C1 (as amended). For every student form submission, \<open>validate\<close> builds the mapping from
  field name to message that holds exactly the violated rules: \<open>codigo\<close>, \<open>nombres\<close>
  and \<open>apellidos\<close> when the field is empty or consists of white space only, \<open>dni\<close>
  when it is not exactly 8 digits, \<open>carrera\<close> when nothing is selected, \<open>semestre\<close>
  when the term is outside 1 to 6, \<open>email\<close> when it is present and does not match the
  address pattern; and no other key. When the mapping is not empty the submit handler
  leaves it as the \<open>errors\<close> state and issues no insert or update; when it is empty,
  which is the case exactly when no rule is violated, the handler issues the insert (or
  the update of the edited row).
\<close>

theorem validate_collects_every_violated_rule:
  "map_of (fst (validate f)) (js ''codigo'') =
     (if list_all is_space (codigo f) then Some msg_codigo_requerido else None)
   \<and> map_of (fst (validate f)) (js ''nombres'') =
     (if list_all is_space (nombres f) then Some msg_nombres_requeridos else None)
   \<and> map_of (fst (validate f)) (js ''apellidos'') =
     (if list_all is_space (apellidos f) then Some msg_apellidos_requeridos else None)
   \<and> map_of (fst (validate f)) (js ''dni'') =
     (if length (dni f) = 8 \<and> list_all is_digit (dni f) then None
      else if list_all is_space (dni f) then Some msg_dni_requerido
      else Some msg_dni_digitos)
   \<and> map_of (fst (validate f)) (js ''carrera'') =
     (if carrera f = [] then Some msg_carrera_requerida else None)
   \<and> map_of (fst (validate f)) (js ''semestre'') =
     (if semestre f < 1 \<or> 6 < semestre f then Some msg_semestre_rango else None)
   \<and> map_of (fst (validate f)) (js ''email'') =
     (if email f \<noteq> [] \<and> \<not> rx_test email_re (email f)
      then Some msg_email_invalido else None)
   \<and> set (keys (fst (validate f))) \<subseteq>
       set [js ''codigo'', js ''nombres'', js ''apellidos'', js ''dni'', js ''carrera'',
            js ''semestre'', js ''email'']
   \<and> (fst (validate f) \<noteq> [] \<longrightarrow>
        handleSubmit student f store =
          \<lparr> calls = [], errors_after = fst (validate f), alerts = [], saved = False \<rparr>)
   \<and> (fst (validate f) = [] \<longrightarrow>
        calls (handleSubmit student f store) =
          [case student of Some st \<Rightarrow> UpdateStudent (s_id st) (dataToSave f)
           | None \<Rightarrow> InsertStudent (dataToSave f)])
   \<and> (fst (validate f) = [] \<longleftrightarrow>
        \<not> list_all is_space (codigo f) \<and> \<not> list_all is_space (nombres f)
        \<and> \<not> list_all is_space (apellidos f)
        \<and> length (dni f) = 8 \<and> list_all is_digit (dni f)
        \<and> carrera f \<noteq> [] \<and> 1 \<le> semestre f \<and> semestre f \<le> 6
        \<and> (email f = [] \<or> rx_test email_re (email f)))"
  using validate_codigo[of f] validate_nombres[of f] validate_apellidos[of f]
    validate_dni[of f] validate_carrera[of f] validate_semestre[of f] validate_email[of f]
    validate_keys_subset[of f] handleSubmit_rejected[of f student store]
    handleSubmit_accepted[of f student store] validate_empty_iff[of f]
  unfolding list_all_iff by (intro conjI impI) assumption+

theorem validate_collects_witness:
  "handleSubmit None ex_form_invalid store_accepts =
     \<lparr> calls = [],
       errors_after = [(js ''codigo'', msg_codigo_requerido), (js ''dni'', msg_dni_digitos),
                       (js ''semestre'', msg_semestre_rango), (js ''email'', msg_email_invalido)],
       alerts = [], saved = False \<rparr>
   \<and> calls (handleSubmit None ex_form store_accepts) = [InsertStudent (dataToSave ex_form)]"
  using validate_collects_every_violated_rule[of ex_form_invalid None store_accepts]
    validate_collects_every_violated_rule[of ex_form None store_accepts]
    ex_form_valid ex_form_invalid_errors
  by simp

text \<open>
  C1 as stated fails: a code that is a single space is not empty, and no listed rule
  is violated, yet the form is rejected with the \<open>codigo\<close> message and no store call.
\<close>

theorem blank_codigo_counterexample:
  "codigo ex_form_blank_codigo \<noteq> [] \<and> nombres ex_form_blank_codigo \<noteq> []
   \<and> apellidos ex_form_blank_codigo \<noteq> []
   \<and> rx_test dni_re (dni ex_form_blank_codigo)
   \<and> carrera ex_form_blank_codigo \<noteq> []
   \<and> 1 \<le> semestre ex_form_blank_codigo \<and> semestre ex_form_blank_codigo \<le> 6
   \<and> email ex_form_blank_codigo = []
   \<and> handleSubmit None ex_form_blank_codigo store_accepts =
       \<lparr> calls = [], errors_after = [(js ''codigo'', msg_codigo_requerido)],
         alerts = [], saved = False \<rparr>"
  by code_simp

text \<open>
  C2. For every student input whose \<open>dni\<close> does not match \<open>^\d{8}$\<close>, the submit handler
  issues no store call and does not report a save; the \<open>errors\<close> state holds a message
  for \<open>dni\<close>.
\<close>

theorem dni_mismatch_rejected_before_store:
  assumes "\<not> rx_test dni_re (dni f)"
  shows "calls (handleSubmit student f store) = []
    \<and> \<not> saved (handleSubmit student f store)
    \<and> map_of (errors_after (handleSubmit student f store)) (js ''dni'')
        = Some (if trim (dni f) = [] then msg_dni_requerido else msg_dni_digitos)"
proof -
  have m: "map_of (fst (validate f)) (js ''dni'')
        = Some (if trim (dni f) = [] then msg_dni_requerido else msg_dni_digitos)"
    using assms by (simp add: validate_map js_neq js_neq[symmetric])
  then have "fst (validate f) \<noteq> []" by auto
  then show ?thesis using m by (simp add: handleSubmit_rejected)
qed

theorem dni_mismatch_witness:
  "\<not> rx_test dni_re (dni ex_form_invalid)
   \<and> calls (handleSubmit None ex_form_invalid store_accepts) = []
   \<and> \<not> saved (handleSubmit None ex_form_invalid store_accepts)
   \<and> map_of (errors_after (handleSubmit None ex_form_invalid store_accepts)) (js ''dni'')
       = Some msg_dni_digitos"
proof -
  have h: "\<not> rx_test dni_re (dni ex_form_invalid)" by code_simp
  have t: "trim (dni ex_form_invalid) \<noteq> []" by code_simp
  show ?thesis
    using h t dni_mismatch_rejected_before_store[OF h, of None store_accepts] by simp
qed



text \<open>
  C3 (as amended). For every loaded student list and every search term, the filter of
  the student list retains exactly the students for which the lower-cased term is a
  substring of the lower-cased given names, of the lower-cased family names, of the
  lower-cased code, or of the national ID (\<open>dni\<close>, taken as it is). Lower-casing is
  \<open>toLowerCase\<close> with whatever lowercase mapping the engine has.
\<close>

theorem filteredStudents_retains_exactly:
  "filteredStudents ucd xs searchTerm =
     filter (\<lambda>s. is_substring (toLowerCase ucd searchTerm) (toLowerCase ucd (nombres s))
               \<or> is_substring (toLowerCase ucd searchTerm) (toLowerCase ucd (apellidos s))
               \<or> is_substring (toLowerCase ucd searchTerm) (toLowerCase ucd (codigo s))
               \<or> is_substring (toLowerCase ucd searchTerm) (dni s)) xs"
  by (simp add: filteredStudents_def Let_def str_includes_iff)

text \<open>
  C3 as stated fails: the term \<open>8765\<close> occurs in neither the names nor the code of
  the student, only in the national ID, and the student is retained. The strings are
  Basic Latin, where the lowercase mapping is \<open>basic_latin\<close>;
  \<open>search_by_dni_any_mapping\<close> above has the same for every mapping that agrees with
  Unicode on Basic Latin.
\<close>

theorem search_by_dni_counterexample:
  "filteredStudents basic_latin [ex_student] (js ''8765'') = [ex_student]
   \<and> \<not> is_substring (toLowerCase basic_latin (js ''8765''))
         (toLowerCase basic_latin (nombres ex_student))
   \<and> \<not> is_substring (toLowerCase basic_latin (js ''8765''))
         (toLowerCase basic_latin (apellidos ex_student))
   \<and> \<not> is_substring (toLowerCase basic_latin (js ''8765''))
         (toLowerCase basic_latin (codigo ex_student))"
  unfolding str_includes_iff[symmetric] by code_simp

text \<open>
  C8. A form that has passed validation sends exactly one mutation, and its payload
  has null for an empty optional field and the form's value otherwise: \<open>email\<close> and
  \<open>telefono\<close> of a student, \<open>hora_entrada\<close> and \<open>observaciones\<close> of an attendance
  entry. A store that accepts the mutation holds these values in the inserted row, or
  in the updated rows.
\<close>

theorem empty_optional_fields_saved_as_null:
  assumes "fst (validate f) = []" and "fst (validate_attendance g) = []"
  shows "calls (handleSubmit student f store) = [submitted_call student f]
    \<and> submitted_call student f =
        (case student of
           Some st \<Rightarrow> UpdateStudent (s_id st) (dataToSave f)
         | None \<Rightarrow> InsertStudent (dataToSave f))
    \<and> email (dataToSave f) = (if email f = [] then None else Some (email f))
    \<and> telefono (dataToSave f) = (if telefono f = [] then None else Some (telefono f))
    \<and> calls (handleSubmit_attendance attendance_prop g store) =
        [case attendance_prop of
           Some a \<Rightarrow> UpdateAttendance (a_id a) (dataToSave_attendance g)
         | None \<Rightarrow> InsertAttendance (dataToSave_attendance g)]
    \<and> hora_entrada (dataToSave_attendance g) =
        (if hora_entrada g = [] then None else Some (hora_entrada g))
    \<and> observaciones (dataToSave_attendance g) =
        (if observaciones g = [] then None else Some (observaciones g))
    \<and> (exec d (InsertStudent (dataToSave f)) db = Inr db_si \<longrightarrow>
         email (last (tbl_students db_si)) = (if email f = [] then None else Some (email f))
         \<and> telefono (last (tbl_students db_si))
             = (if telefono f = [] then None else Some (telefono f)))
    \<and> (exec d (UpdateStudent i (dataToSave f)) db = Inr db_su \<longrightarrow>
         list_all (\<lambda>r. s_id r = i \<longrightarrow>
             email r = (if email f = [] then None else Some (email f))
             \<and> telefono r = (if telefono f = [] then None else Some (telefono f)))
           (tbl_students db_su))
    \<and> (exec d (InsertAttendance (dataToSave_attendance g)) db = Inr db_ai \<longrightarrow>
         hora_entrada (last (tbl_attendance db_ai))
           = (if hora_entrada g = [] then None else Some (hora_entrada g))
         \<and> observaciones (last (tbl_attendance db_ai))
             = (if observaciones g = [] then None else Some (observaciones g)))
    \<and> (exec d (UpdateAttendance j (dataToSave_attendance g)) db = Inr db_au \<longrightarrow>
         list_all (\<lambda>r. a_id r = j \<longrightarrow>
             hora_entrada r = (if hora_entrada g = [] then None else Some (hora_entrada g))
             \<and> observaciones r
                 = (if observaciones g = [] then None else Some (observaciones g)))
           (tbl_attendance db_au))"
proof -
  have p: "email (dataToSave f) = (if email f = [] then None else Some (email f))"
    "telefono (dataToSave f) = (if telefono f = [] then None else Some (telefono f))"
    by (simp_all add: dataToSave_def or_null_def)
  have q: "hora_entrada (dataToSave_attendance g) =
        (if hora_entrada g = [] then None else Some (hora_entrada g))"
    "observaciones (dataToSave_attendance g) =
        (if observaciones g = [] then None else Some (observaciones g))"
    by (simp_all add: dataToSave_attendance_def or_null_def)
  have c1: "calls (handleSubmit student f store) = [submitted_call student f]"
    using handleSubmit_accepted[OF assms(1)] by (simp add: submitted_call_def)
  have c2: "calls (handleSubmit_attendance attendance_prop g store) =
        [case attendance_prop of
           Some a \<Rightarrow> UpdateAttendance (a_id a) (dataToSave_attendance g)
         | None \<Rightarrow> InsertAttendance (dataToSave_attendance g)]"
    by (rule handleSubmit_attendance_accepted[OF assms(2)])
  have s1: "exec d (InsertStudent (dataToSave f)) db = Inr db_si \<longrightarrow>
         email (last (tbl_students db_si)) = (if email f = [] then None else Some (email f))
         \<and> telefono (last (tbl_students db_si))
             = (if telefono f = [] then None else Some (telefono f))"
  proof
    assume "exec d (InsertStudent (dataToSave f)) db = Inr db_si"
    from insert_student_row[OF this]
    have "last (tbl_students db_si) = student_row (new_id d) (now d) (now d) (dataToSave f)"
      by simp
    then show "email (last (tbl_students db_si)) = (if email f = [] then None else Some (email f))
         \<and> telefono (last (tbl_students db_si))
             = (if telefono f = [] then None else Some (telefono f))"
      unfolding p[symmetric] by (simp add: student_row_def)
  qed
  have s2: "exec d (UpdateStudent i (dataToSave f)) db = Inr db_su \<longrightarrow>
         list_all (\<lambda>r. s_id r = i \<longrightarrow>
             email r = (if email f = [] then None else Some (email f))
             \<and> telefono r = (if telefono f = [] then None else Some (telefono f)))
           (tbl_students db_su)"
    unfolding list_all_iff p[symmetric] using update_student_rows by blast
  have s3: "exec d (InsertAttendance (dataToSave_attendance g)) db = Inr db_ai \<longrightarrow>
         hora_entrada (last (tbl_attendance db_ai))
           = (if hora_entrada g = [] then None else Some (hora_entrada g))
         \<and> observaciones (last (tbl_attendance db_ai))
             = (if observaciones g = [] then None else Some (observaciones g))"
  proof
    assume "exec d (InsertAttendance (dataToSave_attendance g)) db = Inr db_ai"
    from insert_attendance_row[OF this]
    have "last (tbl_attendance db_ai) = attendance_row (new_id d) (now d) (dataToSave_attendance g)"
      by simp
    then show "hora_entrada (last (tbl_attendance db_ai))
           = (if hora_entrada g = [] then None else Some (hora_entrada g))
         \<and> observaciones (last (tbl_attendance db_ai))
             = (if observaciones g = [] then None else Some (observaciones g))"
      unfolding q[symmetric] by (simp add: attendance_row_def)
  qed
  have s4: "exec d (UpdateAttendance j (dataToSave_attendance g)) db = Inr db_au \<longrightarrow>
         list_all (\<lambda>r. a_id r = j \<longrightarrow>
             hora_entrada r = (if hora_entrada g = [] then None else Some (hora_entrada g))
             \<and> observaciones r
                 = (if observaciones g = [] then None else Some (observaciones g)))
           (tbl_attendance db_au)"
    unfolding list_all_iff q[symmetric] using update_attendance_rows by blast
  show ?thesis
    using c1 c2 p q s1 s2 s3 s4 by (simp only: submitted_call_def)
qed


theorem empty_optional_fields_witness:
  "fst (validate ex_form) = [] \<and> fst (validate_attendance ex_attendance_form) = []
   \<and> email ex_form = [] \<and> telefono ex_form = []
   \<and> hora_entrada ex_attendance_form = [] \<and> observaciones ex_attendance_form = []
   \<and> calls (handleSubmit None ex_form store_accepts) =
       [InsertStudent
          \<lparr> codigo = js ''SEN001'', nombres = js ''Juan'', apellidos = js ''Perez'',
            dni = js ''12345678'', carrera = js ''Contabilidad'', semestre = 3,
            email = None, telefono = None, activo = True \<rparr>]
   \<and> calls (handleSubmit_attendance None ex_attendance_form store_accepts) =
       [InsertAttendance
          \<lparr> student_id = js ''u1'', fecha = js ''2025-01-15'', estado = presente,
            hora_entrada = None, curso = js ''Redes'', observaciones = None \<rparr>]
   \<and> exec ex_defaults (InsertStudent (dataToSave ex_form)) empty_store =
       Inr \<lparr> tbl_students =
               [student_row (js ''u1'') (js ''2025-01-15T10:30:00Z'')
                  (js ''2025-01-15T10:30:00Z'')
                  \<lparr> codigo = js ''SEN001'', nombres = js ''Juan'', apellidos = js ''Perez'',
                    dni = js ''12345678'', carrera = js ''Contabilidad'', semestre = 3,
                    email = None, telefono = None, activo = True \<rparr>],
             tbl_attendance = [] \<rparr>
   \<and> email (last (tbl_students
         \<lparr> tbl_students =
               [student_row (js ''u1'') (js ''2025-01-15T10:30:00Z'')
                  (js ''2025-01-15T10:30:00Z'')
                  \<lparr> codigo = js ''SEN001'', nombres = js ''Juan'', apellidos = js ''Perez'',
                    dni = js ''12345678'', carrera = js ''Contabilidad'', semestre = 3,
                    email = None, telefono = None, activo = True \<rparr>],
             tbl_attendance = [] \<rparr>)) = None"
proof -
  have 1: "fst (validate ex_form) = []" by (rule ex_form_valid)
  have 2: "fst (validate_attendance ex_attendance_form) = []" by code_simp
  have 3: "email ex_form = [] \<and> telefono ex_form = []
    \<and> hora_entrada ex_attendance_form = [] \<and> observaciones ex_attendance_form = []"
    by (simp add: ex_form_def ex_attendance_form_def)
  have 4: "dataToSave ex_form =
      \<lparr> codigo = js ''SEN001'', nombres = js ''Juan'', apellidos = js ''Perez'',
        dni = js ''12345678'', carrera = js ''Contabilidad'', semestre = 3,
        email = None, telefono = None, activo = True \<rparr>"
    by (simp add: dataToSave_def ex_form_def or_null_def)
  have 5: "dataToSave_attendance ex_attendance_form =
      \<lparr> student_id = js ''u1'', fecha = js ''2025-01-15'', estado = presente,
        hora_entrada = None, curso = js ''Redes'', observaciones = None \<rparr>"
    by (simp add: dataToSave_attendance_def ex_attendance_form_def or_null_def)
  have 6: "exec ex_defaults (InsertStudent (dataToSave ex_form)) empty_store =
       Inr \<lparr> tbl_students =
               [student_row (js ''u1'') (js ''2025-01-15T10:30:00Z'')
                  (js ''2025-01-15T10:30:00Z'')
                  \<lparr> codigo = js ''SEN001'', nombres = js ''Juan'', apellidos = js ''Perez'',
                    dni = js ''12345678'', carrera = js ''Contabilidad'', semestre = 3,
                    email = None, telefono = None, activo = True \<rparr>],
             tbl_attendance = [] \<rparr>"
    by code_simp
  show ?thesis
    using 1 2 3 4 5 6
      empty_optional_fields_saved_as_null[OF 1 2, where student = None
        and store = store_accepts and attendance_prop = None and d = ex_defaults
        and db = empty_store
        and db_si = "\<lparr> tbl_students =
               [student_row (js ''u1'') (js ''2025-01-15T10:30:00Z'')
                  (js ''2025-01-15T10:30:00Z'')
                  \<lparr> codigo = js ''SEN001'', nombres = js ''Juan'', apellidos = js ''Perez'',
                    dni = js ''12345678'', carrera = js ''Contabilidad'', semestre = 3,
                    email = None, telefono = None, activo = True \<rparr>],
             tbl_attendance = [] \<rparr>"]
    by (simp add: submitted_call_def)
qed

text \<open>
  C9. With the empty search term the filter returns the loaded list unchanged, in the
  student list and in the roster search of the attendance form, whatever the lowercase
  mapping.
\<close>

theorem empty_search_term_keeps_every_student:
  "filteredStudents ucd xs [] = xs \<and> roster_filteredStudents ucd xs [] = xs"
  by (simp add: filteredStudents_def roster_filteredStudents_def toLowerCase_empty
      str_includes_empty)




text \<open>
  C5. With a date filter and a course filter set, and the store keeping referential
  integrity, the rows the attendance list loads are exactly the entries of the table
  whose date and course equal the two filters, each with its owning student embedded,
  ordered by date descending and then by creation time descending.
\<close>

theorem attendance_filter_by_date_and_course:
  assumes "filterDate st \<noteq> []" and "filterCurso st \<noteq> []" and "fk_ok db"
  shows "set (loaded_rows st db) =
           join_student db `
             {a \<in> set (tbl_attendance db). fecha a = filterDate st \<and> curso a = filterCurso st}
    \<and> length (loaded_rows st db) =
        length (filter (\<lambda>a. fecha a = filterDate st \<and> curso a = filterCurso st)
                  (tbl_attendance db))
    \<and> list_all (\<lambda>r. fecha r = filterDate st \<and> curso r = filterCurso st) (loaded_rows st db)
    \<and> list_all (\<lambda>r. \<exists>s. s \<in> set (tbl_students db) \<and> students r = Some s
                       \<and> s_id s = student_id r) (loaded_rows st db)
    \<and> sorted_wrt date_then_created_desc (loaded_rows st db)"
proof -
  let ?q = "build_query (filterDate st) (filterCurso st)"
  have q: "eqs ?q = [(col_fecha, filterDate st), (col_curso, filterCurso st)]"
    using assms(1,2) by (simp add: build_query_both)
  have s: "set (loaded_rows st db) =
           join_student db `
             {a \<in> set (tbl_attendance db). fecha a = filterDate st \<and> curso a = filterCurso st}"
    unfolding loaded_rows_select set_select_attendance q
    by (auto simp: join_student_fields)
  have l: "length (loaded_rows st db) =
        length (filter (\<lambda>a. fecha a = filterDate st \<and> curso a = filterCurso st)
                  (tbl_attendance db))"
    unfolding loaded_rows_select length_select_attendance q
    by (simp add: join_student_fields)
  have m: "list_all (\<lambda>r. fecha r = filterDate st \<and> curso r = filterCurso st)
      (loaded_rows st db)"
    unfolding list_all_iff s by (auto simp: join_student_fields)
  have j: "list_all (\<lambda>r. \<exists>s. s \<in> set (tbl_students db) \<and> students r = Some s
                       \<and> s_id s = student_id r) (loaded_rows st db)"
    unfolding list_all_iff s
  proof
    fix r
    assume "r \<in> join_student db `
      {a \<in> set (tbl_attendance db). fecha a = filterDate st \<and> curso a = filterCurso st}"
    then obtain a where a: "a \<in> set (tbl_attendance db)" and r: "r = join_student db a"
      by blast
    from a assms(3) have "student_id a \<in> set (map s_id (tbl_students db))"
      by (simp add: fk_ok_def list_all_iff)
    from find_owner[OF this] show "\<exists>s. s \<in> set (tbl_students db) \<and> students r = Some s
        \<and> s_id s = student_id r"
      unfolding r join_student_fields by blast
  qed
  have o: "sorted_wrt date_then_created_desc (loaded_rows st db)"
    using sorted_select_attendance[of ?q db]
    unfolding loaded_rows_select order_by_build_query row_before_date_created[abs_def]
    by simp
  from s l m j o show ?thesis by blast
qed

theorem attendance_filter_witness:
  "filterDate (ex_list_state (js ''2025-01-15'') (js ''Redes'')) \<noteq> []
   \<and> filterCurso (ex_list_state (js ''2025-01-15'') (js ''Redes'')) \<noteq> []
   \<and> fk_ok ex_store
   \<and> map a_id (loaded_rows (ex_list_state (js ''2025-01-15'') (js ''Redes'')) ex_store)
       = [js ''a2'', js ''a1'']
   \<and> sorted_wrt date_then_created_desc
       (loaded_rows (ex_list_state (js ''2025-01-15'') (js ''Redes'')) ex_store)"
proof -
  have 1: "filterDate (ex_list_state (js ''2025-01-15'') (js ''Redes'')) \<noteq> []"
    by (simp add: ex_list_state_def js_def)
  have 2: "filterCurso (ex_list_state (js ''2025-01-15'') (js ''Redes'')) \<noteq> []"
    by (simp add: ex_list_state_def js_def)
  show ?thesis
    using 1 2 ex_store_fk ex_loaded_rows
      attendance_filter_by_date_and_course[OF 1 2 ex_store_fk]
    by simp
qed

text \<open>
  C6. After a load, the course options are the distinct course names of the rows the
  list now holds, sorted: after a load the store answered without error, and after a
  failed one whenever they were so before (a failed load changes neither). They are
  computed from the loaded rows, not from the table.
\<close>

theorem course_options_from_loaded_rows:
  assumes "error (store_select (build_query (filterDate st) (filterCurso st))) = None
           \<or> cursos st = sort_js (new_Set (map curso (attendances st)))"
  shows "set (cursos (loadAttendances st store_select))
           = set (map curso (attendances (loadAttendances st store_select)))
    \<and> distinct (cursos (loadAttendances st store_select))
    \<and> sorted (cursos (loadAttendances st store_select))"
proof (cases "error (store_select (build_query (filterDate st) (filterCurso st)))")
  case None
  then show ?thesis
    by (simp add: loadAttendances_def Let_def sort_js_def set_new_Set distinct_new_Set)
next
  case (Some e)
  with assms have "cursos st = sort_js (new_Set (map curso (attendances st)))" by simp
  with Some show ?thesis
    by (simp add: loadAttendances_def Let_def sort_js_def set_new_Set distinct_new_Set)
qed

theorem course_options_witness:
  "error (answer ex_store
            (build_query (filterDate (ex_list_state (js ''2025-01-15'') []))
               (filterCurso (ex_list_state (js ''2025-01-15'') [])))) = None
   \<and> cursos (loadAttendances (ex_list_state (js ''2025-01-15'') []) (answer ex_store))
       = [js ''Algebra'', js ''Redes'']
   \<and> set (cursos (loadAttendances (ex_list_state (js ''2025-01-15'') []) (answer ex_store)))
       = set (map curso
           (attendances (loadAttendances (ex_list_state (js ''2025-01-15'') []) (answer ex_store))))
   \<and> map curso (tbl_attendance ex_store)
       = [js ''Redes'', js ''Redes'', js ''Fisica'', js ''Algebra'']"
proof -
  have 1: "error (answer ex_store
            (build_query (filterDate (ex_list_state (js ''2025-01-15'') []))
               (filterCurso (ex_list_state (js ''2025-01-15'') [])))) = None"
    by (simp add: answer_def)
  show ?thesis
    using 1 ex_cursos ex_table_cursos
      course_options_from_loaded_rows[of "answer ex_store" "ex_list_state (js ''2025-01-15'') []"]
    by simp
qed

text \<open>
  C7. Deleting a student succeeds and removes the student row and every attendance
  entry that references it, so that no read of the attendance table returns an entry
  referencing the deleted student; every reachable store state keeps referential
  integrity; and a confirmed delete in the student list issues that delete.
\<close>

theorem student_delete_cascades:
  "(\<exists>db'. exec d (DeleteStudent i) db = Inr db'
       \<and> i \<notin> set (map s_id (tbl_students db'))
       \<and> list_all (\<lambda>a. student_id a \<noteq> i) (tbl_attendance db')
       \<and> list_all (\<lambda>r. student_id r \<noteq> i) (select_attendance db' q))
   \<and> (reachable db \<longrightarrow> fk_ok db)
   \<and> fst (handleDelete True i store) = [DeleteStudent i]"
proof -
  let ?db' = "db\<lparr>tbl_students := filter (\<lambda>r. s_id r \<noteq> i) (tbl_students db),
             tbl_attendance := filter (\<lambda>a. student_id a \<noteq> i) (tbl_attendance db)\<rparr>"
  have e: "exec d (DeleteStudent i) db = Inr ?db'" by simp
  have 1: "i \<notin> set (map s_id (tbl_students ?db'))" by auto
  have 2: "list_all (\<lambda>a. student_id a \<noteq> i) (tbl_attendance ?db')"
    by (simp add: list_all_iff)
  have 3: "list_all (\<lambda>r. student_id r \<noteq> i) (select_attendance ?db' q)"
    unfolding list_all_iff set_select_attendance
    by (auto simp: join_student_fields)
  have 4: "fst (handleDelete True i store) = [DeleteStudent i]"
    by (simp add: handleDelete_def split: option.splits)
  from e 1 2 3 4 reachable_fk show ?thesis by blast
qed

theorem student_delete_witness:
  "reachable ex_store_small \<and> fk_ok ex_store_small
   \<and> exec ex_defaults (DeleteStudent (js ''u1'')) ex_store_small = Inr empty_store"
proof -
  have "exec ex_defaults (DeleteStudent (js ''u1'')) ex_store_small = Inr empty_store"
    by code_simp
  then show ?thesis
    using ex_store_small_reachable
      student_delete_cascades[of ex_defaults "js ''u1''" ex_store_small]
    by simp
qed

end
